theory Spec2Isabelle
  imports Main "HOL-Library.Multiset" "HOL-Library.Sublist"
begin

section \<open>Host-language primitives\<close>

text \<open>
  Strings are lists of \<^typ>\<open>char\<close>. Case folding and white space are modelled on the
  ASCII range: \<open>toLowerCase\<close> maps \<open>A\<close>..\<open>Z\<close> to \<open>a\<close>..\<open>z\<close> and leaves every other
  character alone, and \<open>trim\<close> strips tab, line feed, vertical tab, form feed, carriage
  return and space from both ends.
\<close>

definition toLowerCase_char :: "char \<Rightarrow> char" where
  "toLowerCase_char c =
     (case map_of (zip ''ABCDEFGHIJKLMNOPQRSTUVWXYZ'' ''abcdefghijklmnopqrstuvwxyz'') c of
        Some l \<Rightarrow> l
      | None \<Rightarrow> c)"

definition toLowerCase :: "string \<Rightarrow> string" where
  "toLowerCase s = map toLowerCase_char s"

definition isWhiteSpace :: "char \<Rightarrow> bool" where
  "isWhiteSpace c = ((of_char c :: nat) \<in> {9, 10, 11, 12, 13, 32})"

definition trim :: "string \<Rightarrow> string" where
  "trim s = rev (dropWhile isWhiteSpace (rev (dropWhile isWhiteSpace s)))"

text \<open>\<open>s.includes(t)\<close>: \<open>t\<close> occurs in \<open>s\<close> as a contiguous run.\<close>

definition includesStr :: "string \<Rightarrow> string \<Rightarrow> bool" where
  "includesStr s t = sublist t s"

text \<open>
  \<open>String(n)\<close> for an integer: the decimal digits, with a minus sign for a negative
  number.
\<close>

definition digit_char :: "nat \<Rightarrow> char" where
  "digit_char d = ''0123456789'' ! d"

fun string_of_nat :: "nat \<Rightarrow> string" where
  "string_of_nat n =
     (if n < 10 then [digit_char n] else string_of_nat (n div 10) @ [digit_char (n mod 10)])"

declare string_of_nat.simps [simp del]

definition string_of_int :: "int \<Rightarrow> string" where
  "string_of_int i = (if i < 0 then CHR ''-'' # string_of_nat (nat (- i)) else string_of_nat (nat i))"

text \<open>
  \<open>Number(s)\<close> for a string, on the integer literals: white space is trimmed, the empty
  string is 0, and an optional sign followed by decimal digits is that integer. Every
  other string is \<open>None\<close>: in the program that is \<open>NaN\<close> or a number written as a
  fraction, with an exponent or in another base, none of which the year control can
  hold (its values are the empty string and \<open>String(year)\<close> of the loaded items).
\<close>

definition digit_val :: "char \<Rightarrow> nat option" where
  "digit_val c =
     (let n = (of_char c :: nat) in if 48 \<le> n \<and> n \<le> 57 then Some (n - 48) else None)"

fun nat_of_digits :: "nat \<Rightarrow> string \<Rightarrow> nat option" where
  "nat_of_digits acc [] = Some acc"
| "nat_of_digits acc (c # cs) =
     (case digit_val c of None \<Rightarrow> None | Some d \<Rightarrow> nat_of_digits (10 * acc + d) cs)"

definition unsigned_of_string :: "string \<Rightarrow> nat option" where
  "unsigned_of_string s = (if s = [] then None else nat_of_digits 0 s)"

definition toNumber :: "string \<Rightarrow> int option" where
  "toNumber s =
     (case trim s of
        [] \<Rightarrow> Some 0
      | c # cs \<Rightarrow>
          if c = CHR ''-'' then map_option (\<lambda>n. - int n) (unsigned_of_string cs)
          else if c = CHR ''+'' then map_option int (unsigned_of_string cs)
          else map_option int (unsigned_of_string (c # cs)))"

text \<open>
  \<open>n == s\<close> for a number \<open>n\<close> and a string \<open>s\<close>: the string is converted to a number and
  the numbers are compared.
\<close>

definition looseEquals :: "int \<Rightarrow> string \<Rightarrow> bool" where
  "looseEquals n s = (toNumber s = Some n)"

section \<open>Tutorials\<close>

text \<open>
  A tutorial as the filter reads it; the field \<open>keywords\<close> is written \<open>keywords_t\<close>.
  \<open>year\<close> is an integer, as in the specification's data model. \<open>authors\<close> and
  \<open>keywords\<close> are optional: the program itself tests for their absence
  (\<open>renderAuthors\<close>, \<open>renderKeywords\<close>, \<open>populateFilters\<close>). \<open>status\<close> is optional too
  (\<open>!t.status\<close>), and any string when present; \<open>None\<close> stands for a missing or null
  field. The fields that only the cards show (\<open>thumbnail\<close>, \<open>url\<close>) are left out.
\<close>

record tutorial =
  title :: string
  authors :: "string list option"
  year :: int
  status :: "string option"
  keywords_t :: "string list option"

datatype error = TypeError

section \<open>Filtering\<close>

text \<open>
  The callback of \<open>allTutorials.filter\<close> in \<open>filterTutorials\<close>, one definition per
  \<open>const\<close>. \<open>||\<close> evaluates its right operand only when the left one is false, so
  \<open>tutorial.authors.some\<close> and \<open>tutorial.keywords.some\<close> are reached only after the
  title failed to match; calling a method of an absent field throws a \<open>TypeError\<close>.
\<close>

definition matchesSearch :: "string \<Rightarrow> tutorial \<Rightarrow> error + bool" where
  "matchesSearch searchTerm t =
     (if searchTerm = [] then Inr True
      else if includesStr (toLowerCase (title t)) searchTerm then Inr True
      else case authors t of
        None \<Rightarrow> Inl TypeError
      | Some as \<Rightarrow>
          if list_ex (\<lambda>author. includesStr (toLowerCase author) searchTerm) as then Inr True
          else (case keywords_t t of
                  None \<Rightarrow> Inl TypeError
                | Some ks \<Rightarrow> Inr (list_ex (\<lambda>kw. includesStr (toLowerCase kw) searchTerm) ks)))"

definition matchesYear :: "string \<Rightarrow> tutorial \<Rightarrow> bool" where
  "matchesYear selectedYear t = (selectedYear = [] \<or> looseEquals (year t) selectedYear)"

definition matchesTopic :: "string \<Rightarrow> tutorial \<Rightarrow> error + bool" where
  "matchesTopic selectedTopic t =
     (if selectedTopic = [] then Inr True
      else case keywords_t t of
        None \<Rightarrow> Inl TypeError
      | Some ks \<Rightarrow> Inr (selectedTopic \<in> set ks))"

definition matchesAll :: "string \<Rightarrow> string \<Rightarrow> string \<Rightarrow> tutorial \<Rightarrow> error + bool" where
  "matchesAll searchTerm selectedYear selectedTopic t =
     (case matchesSearch searchTerm t of
        Inl e \<Rightarrow> Inl e
      | Inr ms \<Rightarrow>
          (case matchesTopic selectedTopic t of
             Inl e \<Rightarrow> Inl e
           | Inr mt \<Rightarrow> Inr (ms \<and> matchesYear selectedYear t \<and> mt)))"

text \<open>\<open>Array.prototype.filter\<close> with a callback that may throw: the first throw ends it.\<close>

fun filterArray :: "('a \<Rightarrow> error + bool) \<Rightarrow> 'a list \<Rightarrow> error + 'a list" where
  "filterArray p [] = Inr []"
| "filterArray p (x # xs) =
     (case p x of
        Inl e \<Rightarrow> Inl e
      | Inr b \<Rightarrow>
          (case filterArray p xs of
             Inl e \<Rightarrow> Inl e
           | Inr ys \<Rightarrow> Inr (if b then x # ys else ys)))"

text \<open>
  Lines 255 to 275 of \<open>filterTutorials\<close>: the three control values are read, the search
  text is lower-cased and trimmed, and the collection is filtered.
\<close>

definition matchedTutorials ::
  "tutorial list \<Rightarrow> string \<Rightarrow> string \<Rightarrow> string \<Rightarrow> error + tutorial list" where
  "matchedTutorials allTutorials searchValue yearValue topicValue =
     filterArray (matchesAll (trim (toLowerCase searchValue)) yearValue topicValue) allTutorials"

section \<open>Ordering within years\<close>

text \<open>
  \<open>byYear\<close> is an object: an association list in insertion order, with strings for
  keys. \<open>byYear[tutorial.year]\<close> looks up the key \<open>String(tutorial.year)\<close>.
\<close>

type_synonym byYear = "(string \<times> tutorial list) list"

definition yearKey :: "tutorial \<Rightarrow> string" where
  "yearKey t = string_of_int (year t)"

fun pushByYear :: "tutorial \<Rightarrow> byYear \<Rightarrow> byYear" where
  "pushByYear t [] = [(yearKey t, [t])]"
| "pushByYear t ((k, g) # byYear) =
     (if k = yearKey t then (k, g @ [t]) # byYear else (k, g) # pushByYear t byYear)"

definition groupByYear :: "tutorial list \<Rightarrow> byYear" where
  "groupByYear tutorials = foldl (\<lambda>byYear t. pushByYear t byYear) [] tutorials"

text \<open>
  The number a key is converted to where it is used as one (\<open>b - a\<close>). The keys of
  \<open>byYear\<close> are all \<open>String(year)\<close>, so the conversion never gives \<open>NaN\<close>; the
  definition has 0 there.
\<close>

definition numberOf :: "string \<Rightarrow> int" where
  "numberOf k = (case toNumber k of Some n \<Rightarrow> n | None \<Rightarrow> 0)"

text \<open>
  \<open>Object.keys\<close>: the keys that are array indices (the canonical strings of 0 to
  2^32 - 2) in ascending numeric order, then the other keys in insertion order.
\<close>

definition isArrayIndex :: "string \<Rightarrow> bool" where
  "isArrayIndex k =
     (case toNumber k of
        Some n \<Rightarrow> 0 \<le> n \<and> n < 4294967295 \<and> string_of_int n = k
      | None \<Rightarrow> False)"

definition objectKeys :: "byYear \<Rightarrow> string list" where
  "objectKeys byYear =
     sort_key numberOf (filter isArrayIndex (map fst byYear))
     @ filter (\<lambda>k. \<not> isArrayIndex k) (map fst byYear)"

definition isWinner :: "tutorial \<Rightarrow> bool" where
  "isWinner t = (status t = Some ''winner'')"

definition isFinalist :: "tutorial \<Rightarrow> bool" where
  "isFinalist t = (status t = Some ''finalist'')"

text \<open>\<open>!t.status || t.status === 'regular'\<close>: an absent or empty status is falsy.\<close>

definition isRegular :: "tutorial \<Rightarrow> bool" where
  "isRegular t = (status t = None \<or> status t = Some [] \<or> status t = Some ''regular'')"

text \<open>
  The shuffle loop. \<open>Math.random\<close> is a supply \<open>rnd\<close> of naturals and a count \<open>n\<close> of
  the calls made so far: \<open>Math.floor(Math.random() * (i + 1))\<close> is some index from 0 to
  \<open>i\<close>, here \<open>rnd n mod (i + 1)\<close>. The loop runs \<open>i\<close> from \<open>length - 1\<close> down to 1 and
  swaps the entries at \<open>i\<close> and \<open>j\<close>.
\<close>

fun fisherYates :: "(nat \<Rightarrow> nat) \<Rightarrow> nat \<Rightarrow> nat \<Rightarrow> 'a list \<Rightarrow> 'a list \<times> nat" where
  "fisherYates rnd n 0 regulars = (regulars, n)"
| "fisherYates rnd n (Suc i) regulars =
     (let j = rnd n mod (Suc i + 1)
      in fisherYates rnd (Suc n) i (regulars[Suc i := regulars ! j, j := regulars ! Suc i]))"

definition sortGroup :: "(nat \<Rightarrow> nat) \<Rightarrow> nat \<Rightarrow> tutorial list \<Rightarrow> tutorial list \<times> nat" where
  "sortGroup rnd n grp =
     (let winners = filter isWinner grp;
          finalists = filter isFinalist grp;
          regulars = filter isRegular grp;
          (shuffled, n') = fisherYates rnd n (length regulars - 1) regulars
      in (winners @ finalists @ shuffled, n'))"

fun updateByYear :: "string \<Rightarrow> tutorial list \<Rightarrow> byYear \<Rightarrow> byYear" where
  "updateByYear k v [] = []"
| "updateByYear k v ((k', g) # byYear) =
     (if k' = k then (k', v) # byYear else (k', g) # updateByYear k v byYear)"

text \<open>\<open>Object.keys(byYear).forEach\<close>: each year's list is replaced by its sorted version.\<close>

fun sortGroups :: "(nat \<Rightarrow> nat) \<Rightarrow> nat \<Rightarrow> string list \<Rightarrow> byYear \<Rightarrow> byYear \<times> nat" where
  "sortGroups rnd n [] byYear = (byYear, n)"
| "sortGroups rnd n (k # ks) byYear =
     (case map_of byYear k of
        None \<Rightarrow> sortGroups rnd n ks byYear
      | Some grp \<Rightarrow>
          (let (sorted, n') = sortGroup rnd n grp
           in sortGroups rnd n' ks (updateByYear k sorted byYear)))"

text \<open>
  \<open>.sort((a, b) => b - a)\<close>: the comparator subtracts the keys as numbers, so the sort
  (a stable one) orders the keys by their numeric value, largest first; \<open>flatMap\<close>
  concatenates the groups in that order.
\<close>

definition yearsDescending :: "byYear \<Rightarrow> string list" where
  "yearsDescending byYear = sort_key (\<lambda>k. - numberOf k) (objectKeys byYear)"

definition flatMapYears :: "byYear \<Rightarrow> string list \<Rightarrow> tutorial list" where
  "flatMapYears byYear years =
     concat (map (\<lambda>k. case map_of byYear k of Some g \<Rightarrow> g | None \<Rightarrow> []) years)"

definition shuffleWithinYears :: "(nat \<Rightarrow> nat) \<Rightarrow> nat \<Rightarrow> tutorial list \<Rightarrow> tutorial list \<times> nat" where
  "shuffleWithinYears rnd n tutorials =
     (let byYear = groupByYear tutorials;
          (byYear', n') = sortGroups rnd n (objectKeys byYear) byYear
      in (flatMapYears byYear' (yearsDescending byYear'), n'))"

text \<open>
  Lines 255 to 278 of \<open>filterTutorials\<close>, from the control values to the list that is
  stored and rendered: filter, then order within years.
\<close>

definition applyFilters ::
  "(nat \<Rightarrow> nat) \<Rightarrow> nat \<Rightarrow> tutorial list \<Rightarrow> string \<Rightarrow> string \<Rightarrow> string
     \<Rightarrow> error + tutorial list \<times> nat" where
  "applyFilters rnd n allTutorials searchValue yearValue topicValue =
     (case matchedTutorials allTutorials searchValue yearValue topicValue of
        Inl e \<Rightarrow> Inl e
      | Inr matched \<Rightarrow> Inr (shuffleWithinYears rnd n matched))"

section \<open>The page\<close>

text \<open>
  The module's variables and the parts of the document it reads and writes, as one
  record. The six elements the script looks up are taken to exist.

  \<open>yearSelect\<close> and \<open>topicSelect\<close> are \<open>select\<close> elements (\<open>populateFilters\<close> fills
  them with \<open>option\<close> elements). By the HTML standard, assigning to \<open>value\<close> of a
  select deselects every option and then selects the first option with that value, if
  there is one; reading \<open>value\<close> gives the value of the first selected option, and the
  empty string when no option is selected. So a value that no option has leaves the
  select reading as empty. A select is its set of option values and the value it
  reads as.
\<close>

record select =
  optionValues :: "string set"
  selectValue :: string

definition setSelectValue :: "string \<Rightarrow> select \<Rightarrow> select" where
  "setSelectValue v s = s\<lparr>selectValue := (if v \<in> optionValues s then v else [])\<rparr>"

text \<open>
  What \<open>libraryContainer\<close> shows: the spinner, the empty state, the error state, or
  the year sections in order, each with the year of its header as the key of \<open>byYear\<close>
  has it and with its cards in order.
\<close>

datatype library =
    Loading
  | EmptyState
  | ErrorState
  | YearSections "(string \<times> tutorial list) list"

text \<open>
  \<open>URLSearchParams\<close> is a list of name-value pairs. \<open>locationSearch\<close> is the query of
  the page's URL as \<open>new URLSearchParams(window.location.search)\<close> reads it; the
  percent-encoding between the two is the platform's and is not modelled.
\<close>

type_synonym params = "(string \<times> string) list"

fun paramsSet :: "string \<Rightarrow> string \<Rightarrow> params \<Rightarrow> params" where
  "paramsSet k v [] = [(k, v)]"
| "paramsSet k v ((k', v') # ps) =
     (if k' = k then (k, v) # filter (\<lambda>q. fst q \<noteq> k) ps else (k', v') # paramsSet k v ps)"

definition paramsGet :: "params \<Rightarrow> string \<Rightarrow> string option" where
  "paramsGet ps k = map_of ps k"

text \<open>
  The side effects of a run, in the order they happen, are recorded in \<open>effects\<close>
  with the time of the clock: a log beside the state, which no function reads.
  \<open>Recompute\<close> carries the three control values read and the list stored in
  \<open>filteredTutorials\<close>; \<open>Uncaught\<close> is an exception that reached the event loop.
\<close>

datatype effect =
    Recompute string string string "tutorial list"
  | Render library
  | ResultsCount string
  | ReplaceState params
  | ClearButton bool
  | Uncaught error

record page =
  allTutorials :: "tutorial list"
  filteredTutorials :: "tutorial list"
  searchDebounce :: "nat option"
  searchInput :: string
  yearSelect :: select
  topicSelect :: select
  libraryContainer :: library
  resultsCount :: string
  clearButton :: bool
  locationSearch :: params
  randomCalls :: nat
  clock :: nat
  effects :: "(nat \<times> effect) list"

definition logEffect :: "effect \<Rightarrow> page \<Rightarrow> page" where
  "logEffect e p = p\<lparr>effects := effects p @ [(clock p, e)]\<rparr>"

definition countText :: "nat \<Rightarrow> nat \<Rightarrow> string" where
  "countText cnt all =
     (if cnt = all then ''Showing all '' @ string_of_nat all @ '' tutorials''
      else ''Showing '' @ string_of_nat cnt @ '' of '' @ string_of_nat all @ '' tutorials'')"

definition updateResultsCount :: "nat \<Rightarrow> page \<Rightarrow> page" where
  "updateResultsCount cnt p =
     (let txt = countText cnt (length (allTutorials p))
      in logEffect (ResultsCount txt) (p\<lparr>resultsCount := txt\<rparr>))"

definition updateClearButton :: "page \<Rightarrow> page" where
  "updateClearButton p =
     (let hasFilters = (searchInput p \<noteq> [] \<or> selectValue (yearSelect p) \<noteq> []
                        \<or> selectValue (topicSelect p) \<noteq> [])
      in logEffect (ClearButton hasFilters) (p\<lparr>clearButton := hasFilters\<rparr>))"

definition showLoading :: "page \<Rightarrow> page" where
  "showLoading p = logEffect (Render Loading) (p\<lparr>libraryContainer := Loading\<rparr>)"

definition showEmptyState :: "page \<Rightarrow> page" where
  "showEmptyState p = logEffect (Render EmptyState) (p\<lparr>libraryContainer := EmptyState\<rparr>)"

definition showError :: "page \<Rightarrow> page" where
  "showError p = logEffect (Render ErrorState) (p\<lparr>libraryContainer := ErrorState\<rparr>)"

definition yearSections :: "tutorial list \<Rightarrow> (string \<times> tutorial list) list" where
  "yearSections tutorials =
     (let byYear = groupByYear tutorials
      in map (\<lambda>k. (k, case map_of byYear k of Some g \<Rightarrow> g | None \<Rightarrow> []))
           (yearsDescending byYear))"

definition renderTutorials :: "tutorial list \<Rightarrow> page \<Rightarrow> page" where
  "renderTutorials tutorials p =
     (if tutorials = [] then updateResultsCount 0 (showEmptyState p)
      else updateResultsCount (length tutorials)
             (logEffect (Render (YearSections (yearSections tutorials)))
                (p\<lparr>libraryContainer := YearSections (yearSections tutorials)\<rparr>)))"

text \<open>
  \<open>updateURL\<close>: lines 401 to 405 build the parameters from the three control values,
  and \<open>replaceState\<close> puts them in the URL (the bare path when there are none).
\<close>

definition filterParams :: "string \<Rightarrow> string \<Rightarrow> string \<Rightarrow> params" where
  "filterParams searchValue yearValue topicValue =
     (let params = [];
          params = (if searchValue \<noteq> [] then paramsSet ''search'' searchValue params else params);
          params = (if yearValue \<noteq> [] then paramsSet ''year'' yearValue params else params);
          params = (if topicValue \<noteq> [] then paramsSet ''topic'' topicValue params else params)
      in params)"

definition updateURL :: "page \<Rightarrow> page" where
  "updateURL p =
     (let params = filterParams (searchInput p) (selectValue (yearSelect p))
                     (selectValue (topicSelect p))
      in logEffect (ReplaceState params) (p\<lparr>locationSearch := params\<rparr>))"

text \<open>
  \<open>filterTutorials\<close>. The filter callback is the only step that can throw, and it
  runs before anything is written, so a run that throws leaves the page as it was.
\<close>

definition filterTutorials :: "(nat \<Rightarrow> nat) \<Rightarrow> page \<Rightarrow> error + page" where
  "filterTutorials rnd p =
     (case applyFilters rnd (randomCalls p) (allTutorials p) (searchInput p)
             (selectValue (yearSelect p)) (selectValue (topicSelect p)) of
        Inl e \<Rightarrow> Inl e
      | Inr (filtered, n') \<Rightarrow>
          (let p = logEffect
                     (Recompute (searchInput p) (selectValue (yearSelect p))
                        (selectValue (topicSelect p)) filtered)
                     (p\<lparr>filteredTutorials := filtered, randomCalls := n'\<rparr>);
               p = renderTutorials filtered p;
               p = updateURL p;
               p = updateClearButton p
           in Inr p))"

text \<open>A call of \<open>filterTutorials\<close> from the event loop: an exception is reported there.\<close>

definition callFilterTutorials :: "(nat \<Rightarrow> nat) \<Rightarrow> page \<Rightarrow> page" where
  "callFilterTutorials rnd p =
     (case filterTutorials rnd p of Inl e \<Rightarrow> logEffect (Uncaught e) p | Inr p' \<Rightarrow> p')"

text \<open>
  \<open>handleSearch\<close>: \<open>searchDebounce\<close> holds the time at which the pending timer is
  due. \<open>clearTimeout\<close> drops the pending timer and \<open>setTimeout\<close> arms one due 300 ms
  after the clock.
\<close>

definition handleSearch :: "page \<Rightarrow> page" where
  "handleSearch p = p\<lparr>searchDebounce := Some (clock p + 300)\<rparr>"

definition clearFilters :: "(nat \<Rightarrow> nat) \<Rightarrow> page \<Rightarrow> page" where
  "clearFilters rnd p =
     callFilterTutorials rnd
       (p\<lparr>searchInput := [],
          yearSelect := setSelectValue [] (yearSelect p),
          topicSelect := setSelectValue [] (topicSelect p)\<rparr>)"

text \<open>
  \<open>populateFilters\<close>: each select gets the option with the empty value and one option
  per distinct year (\<open>String(year)\<close>) or keyword, and shows its first option. The order
  of the options is not part of the model.
\<close>

definition populateFilters :: "page \<Rightarrow> page" where
  "populateFilters p =
     p\<lparr>yearSelect :=
         \<lparr>optionValues = insert [] (set (map (\<lambda>t. string_of_int (year t)) (allTutorials p))),
          selectValue = []\<rparr>,
       topicSelect :=
         \<lparr>optionValues =
            insert [] (set (concat (map (\<lambda>t. case keywords_t t of None \<Rightarrow> [] | Some ks \<Rightarrow> ks)
                                      (allTutorials p)))),
          selectValue = []\<rparr>\<rparr>"

text \<open>Lines 418 to 422 of \<open>initializeFromURL\<close>: the controls are set from the query.\<close>

definition restoreFilters :: "page \<Rightarrow> page" where
  "restoreFilters p =
     (let params = locationSearch p;
          p = (case paramsGet params ''search'' of Some v \<Rightarrow> p\<lparr>searchInput := v\<rparr> | None \<Rightarrow> p);
          p = (case paramsGet params ''year'' of
                 Some v \<Rightarrow> p\<lparr>yearSelect := setSelectValue v (yearSelect p)\<rparr>
               | None \<Rightarrow> p);
          p = (case paramsGet params ''topic'' of
                 Some v \<Rightarrow> p\<lparr>topicSelect := setSelectValue v (topicSelect p)\<rparr>
               | None \<Rightarrow> p)
      in p)"

definition initializeFromURL :: "(nat \<Rightarrow> nat) \<Rightarrow> page \<Rightarrow> error + page" where
  "initializeFromURL rnd p = filterTutorials rnd (restoreFilters p)"

text \<open>
  \<open>loadTutorials\<close> after the fetch: on success the data is stored, the filters are
  populated and initialised from the URL, and an exception on the way shows the error
  state; on failure the error state is shown.
\<close>

definition loadSucceeded :: "(nat \<Rightarrow> nat) \<Rightarrow> tutorial list \<Rightarrow> page \<Rightarrow> page" where
  "loadSucceeded rnd tutorials p =
     (let p = populateFilters (p\<lparr>allTutorials := tutorials\<rparr>)
      in case initializeFromURL rnd p of
           Inl e \<Rightarrow> showError (restoreFilters p)
         | Inr p' \<Rightarrow> p')"

text \<open>
  \<open>init\<close>: the listeners are registered and the load is started. The page then shows
  the spinner over an empty collection until the load ends. The document is not among
  the sources; its controls are taken to start empty, each select with the one option
  of empty value that \<open>populateFilters\<close> also writes, the count text empty and the clear
  button hidden. \<open>query\<close> is the query of the URL the page was opened with.
\<close>

definition init :: "params \<Rightarrow> page" where
  "init query =
     showLoading
       \<lparr>allTutorials = [], filteredTutorials = [], searchDebounce = None, searchInput = [],
        yearSelect = \<lparr>optionValues = {[]}, selectValue = []\<rparr>,
        topicSelect = \<lparr>optionValues = {[]}, selectValue = []\<rparr>,
        libraryContainer = Loading, resultsCount = [], clearButton = False,
        locationSearch = query, randomCalls = 0, clock = 0, effects = []\<rparr>"

text \<open>
  The events the listeners and the load react to. An \<open>input\<close> event comes with the new
  text of the search box, a \<open>change\<close> event with the value of the option picked.
\<close>

datatype event =
    SearchInput string
  | YearChange string
  | TopicChange string
  | ClearClick
  | LoadSuccess "tutorial list"
  | LoadFailure

fun handleEvent :: "(nat \<Rightarrow> nat) \<Rightarrow> event \<Rightarrow> page \<Rightarrow> page" where
  "handleEvent rnd (SearchInput v) p = handleSearch (p\<lparr>searchInput := v\<rparr>)"
| "handleEvent rnd (YearChange v) p =
     callFilterTutorials rnd (p\<lparr>yearSelect := setSelectValue v (yearSelect p)\<rparr>)"
| "handleEvent rnd (TopicChange v) p =
     callFilterTutorials rnd (p\<lparr>topicSelect := setSelectValue v (topicSelect p)\<rparr>)"
| "handleEvent rnd ClearClick p = clearFilters rnd p"
| "handleEvent rnd (LoadSuccess tutorials) p = loadSucceeded rnd tutorials p"
| "handleEvent rnd LoadFailure p = showError p"

text \<open>
  Time. \<open>advance t\<close> lets the clock reach \<open>t\<close>: a pending timer that is due by then
  fires at its due time and calls \<open>filterTutorials\<close>. An event stamped \<open>t\<close> is handled
  after the clock has reached \<open>t\<close>, so a timer due at \<open>t\<close> or before fires first.
\<close>

definition advance :: "(nat \<Rightarrow> nat) \<Rightarrow> nat \<Rightarrow> page \<Rightarrow> page" where
  "advance rnd t p =
     (case searchDebounce p of
        None \<Rightarrow> p\<lparr>clock := max (clock p) t\<rparr>
      | Some due \<Rightarrow>
          if due \<le> t
          then (callFilterTutorials rnd (p\<lparr>clock := due, searchDebounce := None\<rparr>))
                 \<lparr>clock := max due t\<rparr>
          else p\<lparr>clock := max (clock p) t\<rparr>)"

definition step :: "(nat \<Rightarrow> nat) \<Rightarrow> nat \<times> event \<Rightarrow> page \<Rightarrow> page" where
  "step rnd te p = handleEvent rnd (snd te) (advance rnd (fst te) p)"

definition run :: "(nat \<Rightarrow> nat) \<Rightarrow> (nat \<times> event) list \<Rightarrow> page \<Rightarrow> page" where
  "run rnd events p = foldl (\<lambda>p te. step rnd te p) p events"

section \<open>Vocabulary of the statements\<close>

text \<open>The list stored under a key, empty for a string that is not a key.\<close>

definition lookupYear :: "byYear \<Rightarrow> string \<Rightarrow> tutorial list" where
  "lookupYear byYear k = (case map_of byYear k of Some g \<Rightarrow> g | None \<Rightarrow> [])"


text \<open>
  \<open>tiered g0 g\<close>: \<open>g\<close> is the winners of \<open>g0\<close> in their order, then its finalists in
  their order, then its regulars in some order. \<open>stableTiers g0 g\<close>: \<open>g\<close> has the
  winners and the finalists of \<open>g0\<close> in their order, and the same regulars.
\<close>

definition tiered :: "tutorial list \<Rightarrow> tutorial list \<Rightarrow> bool" where
  "tiered g0 g =
     (\<exists>r. g = filter isWinner g0 @ filter isFinalist g0 @ r \<and> mset r = mset (filter isRegular g0))"

definition stableTiers :: "tutorial list \<Rightarrow> tutorial list \<Rightarrow> bool" where
  "stableTiers g0 g =
     (filter isWinner g = filter isWinner g0 \<and> filter isFinalist g = filter isFinalist g0 \<and>
      mset (filter isRegular g) = mset (filter isRegular g0))"

text \<open>The filter callback returned true on a tutorial.\<close>

definition passes :: "string \<Rightarrow> string \<Rightarrow> string \<Rightarrow> tutorial \<Rightarrow> bool" where
  "passes searchValue yearValue topicValue t =
     (matchesAll (trim (toLowerCase searchValue)) yearValue topicValue t = Inr True)"

text \<open>
  The three tutorials of the specification's scenario, with an author each.
\<close>

definition deepLearningBasics :: tutorial where
  "deepLearningBasics =
     \<lparr>title = ''Deep Learning Basics'', authors = Some [''Ada''], year = 2023,
      status = Some ''winner'', keywords_t = Some [''ml'']\<rparr>"

definition graphs101 :: tutorial where
  "graphs101 =
     \<lparr>title = ''Graphs 101'', authors = Some [''Bob''], year = 2023,
      status = Some ''regular'', keywords_t = Some [''theory'']\<rparr>"

definition compilers :: tutorial where
  "compilers =
     \<lparr>title = ''Compilers'', authors = Some [''Cyd''], year = 2022,
      status = Some ''finalist'', keywords_t = Some [''pl'']\<rparr>"

definition scenario :: "tutorial list" where
  "scenario = [deepLearningBasics, graphs101, compilers]"

text \<open>Two tutorials whose years order differently as numbers and as strings.\<close>

definition nineNineNine :: tutorial where
  "nineNineNine = \<lparr>title = ''Abacus'', authors = Some [''Eve''], year = 999,
      status = None, keywords_t = Some [''history'']\<rparr>"

definition oneThousand :: tutorial where
  "oneThousand = \<lparr>title = ''Zero'', authors = Some [''Fay''], year = 1000,
      status = None, keywords_t = Some [''history'']\<rparr>"


text \<open>
  The authors and the keywords of a tutorial as lists, empty when the field is absent.
\<close>

definition authorsOf :: "tutorial \<Rightarrow> string list" where
  "authorsOf t = (case authors t of None \<Rightarrow> [] | Some as \<Rightarrow> as)"

definition keywordsOf :: "tutorial \<Rightarrow> string list" where
  "keywordsOf t = (case keywords_t t of None \<Rightarrow> [] | Some ks \<Rightarrow> ks)"

text \<open>
  The search sub-filter in the words of the specification: the search text, compared
  without regard to case, is a substring of the title, of some author or of some
  keyword; an empty search text matches everything.
\<close>

definition claimedSearch :: "string \<Rightarrow> tutorial \<Rightarrow> bool" where
  "claimedSearch searchText t =
     (searchText = []
      \<or> sublist (toLowerCase searchText) (toLowerCase (title t))
      \<or> list_ex (\<lambda>a. sublist (toLowerCase searchText) (toLowerCase a)) (authorsOf t)
      \<or> list_ex (\<lambda>k. sublist (toLowerCase searchText) (toLowerCase k)) (keywordsOf t))"

text \<open>
  The three sub-filters as the filter callback computes them. The search text is
  lower-cased and trimmed of surrounding white space before it is used. The year value
  is compared as a number with the tutorial's year. The topic value is looked up among
  the keywords as it stands.
\<close>

definition searchHolds :: "string \<Rightarrow> tutorial \<Rightarrow> bool" where
  "searchHolds searchValue t =
     (trim (toLowerCase searchValue) = []
      \<or> sublist (trim (toLowerCase searchValue)) (toLowerCase (title t))
      \<or> list_ex (\<lambda>a. sublist (trim (toLowerCase searchValue)) (toLowerCase a)) (authorsOf t)
      \<or> list_ex (\<lambda>k. sublist (trim (toLowerCase searchValue)) (toLowerCase k)) (keywordsOf t))"

definition yearHolds :: "string \<Rightarrow> tutorial \<Rightarrow> bool" where
  "yearHolds yearValue t = (yearValue = [] \<or> toNumber yearValue = Some (year t))"

definition topicHolds :: "string \<Rightarrow> tutorial \<Rightarrow> bool" where
  "topicHolds topicValue t = (topicValue = [] \<or> topicValue \<in> set (keywordsOf t))"

text \<open>
  A tutorial that carries both lists the filter callback calls methods on.
\<close>

definition hasLists :: "tutorial \<Rightarrow> bool" where
  "hasLists t = (authors t \<noteq> None \<and> keywords_t t \<noteq> None)"

text \<open>
  What \<open>renderTutorials\<close> leaves in the container for a list, whether any of the three
  controls holds a value, and the parameters \<open>updateURL\<close> builds for a page.
\<close>

definition rendered :: "tutorial list \<Rightarrow> library" where
  "rendered tutorials =
     (if tutorials = [] then EmptyState else YearSections (yearSections tutorials))"

definition anyFilter :: "page \<Rightarrow> bool" where
  "anyFilter p =
     (searchInput p \<noteq> [] \<or> selectValue (yearSelect p) \<noteq> [] \<or> selectValue (topicSelect p) \<noteq> [])"

definition currentParams :: "page \<Rightarrow> params" where
  "currentParams p =
     filterParams (searchInput p) (selectValue (yearSelect p)) (selectValue (topicSelect p))"

text \<open>
  The page after a run of \<open>filterTutorials\<close> that stored the list \<open>filtered\<close> and left
  the count of \<open>Math.random\<close> calls at \<open>n'\<close>.
\<close>

definition afterRun :: "tutorial list \<Rightarrow> nat \<Rightarrow> page \<Rightarrow> page" where
  "afterRun filtered n' p =
     p\<lparr>filteredTutorials := filtered, randomCalls := n',
       libraryContainer := rendered filtered,
       resultsCount := countText (length filtered) (length (allTutorials p)),
       locationSearch := currentParams p,
       clearButton := anyFilter p,
       effects := effects p @ map (Pair (clock p))
         [Recompute (searchInput p) (selectValue (yearSelect p)) (selectValue (topicSelect p))
            filtered,
          Render (rendered filtered),
          ResultsCount (countText (length filtered) (length (allTutorials p))),
          ReplaceState (currentParams p),
          ClearButton (anyFilter p)]\<rparr>"

text \<open>
  The kind of a logged effect, the order of kinds the specification gives for a run,
  and the kinds of the effects that one call of \<open>filterTutorials\<close> adds to the log.
\<close>

datatype effectKind = Recomputed | Rendered | Counted | UrlSynced | ClearButtonSet | Thrown

fun kindOf :: "effect \<Rightarrow> effectKind" where
  "kindOf (Recompute s y t r) = Recomputed"
| "kindOf (Render l) = Rendered"
| "kindOf (ResultsCount s) = Counted"
| "kindOf (ReplaceState q) = UrlSynced"
| "kindOf (ClearButton b) = ClearButtonSet"
| "kindOf (Uncaught e) = Thrown"

definition claimedOrder :: "effectKind list" where
  "claimedOrder = [Recomputed, Rendered, Counted, ClearButtonSet, UrlSynced]"

definition runEffects :: "(nat \<Rightarrow> nat) \<Rightarrow> page \<Rightarrow> effectKind list" where
  "runEffects rnd p =
     map (\<lambda>e. kindOf (snd e)) (drop (length (effects p)) (effects (callFilterTutorials rnd p)))"

text \<open>
  A page with the scenario loaded, empty controls and an empty log; the same page with
  the year 2022 picked; and the page at the moment \<open>initializeFromURL\<close> is called for
  the scenario and the query \<open>year=abc\<close>.
\<close>

definition scenarioPage :: page where
  "scenarioPage =
     \<lparr>allTutorials = scenario, filteredTutorials = scenario, searchDebounce = None,
      searchInput = [],
      yearSelect = \<lparr>optionValues = {[], ''2023'', ''2022''}, selectValue = []\<rparr>,
      topicSelect = \<lparr>optionValues = {[], ''ml'', ''theory'', ''pl''}, selectValue = []\<rparr>,
      libraryContainer = YearSections (yearSections scenario),
      resultsCount = ''Showing all 3 tutorials'', clearButton = False,
      locationSearch = [], randomCalls = 0, clock = 0, effects = []\<rparr>"

definition scenarioPage2022 :: page where
  "scenarioPage2022 = scenarioPage\<lparr>yearSelect := setSelectValue ''2022'' (yearSelect scenarioPage)\<rparr>"

definition abcPage :: page where
  "abcPage = populateFilters ((init [(''year'', ''abc'')])\<lparr>allTutorials := scenario\<rparr>)"

text \<open>
  A burst of search inputs, as times and texts: each input comes less than 300 ms
  after the one before it (\<open>withinQuietPeriod t es\<close>, with \<open>t\<close> the time of the input
  before \<open>es\<close>). \<open>notDueBy t p\<close>: no timer of \<open>p\<close> is due at \<open>t\<close> or earlier.
  \<open>engineRuns\<close>: the log entries that are a run of the engine, completed or thrown.
\<close>

fun withinQuietPeriod :: "nat \<Rightarrow> (nat \<times> string) list \<Rightarrow> bool" where
  "withinQuietPeriod t [] = True"
| "withinQuietPeriod t (e # es) = (t \<le> fst e \<and> fst e < t + 300 \<and> withinQuietPeriod (fst e) es)"

definition searchInputs :: "(nat \<times> string) list \<Rightarrow> (nat \<times> event) list" where
  "searchInputs es = map (\<lambda>e. (fst e, SearchInput (snd e))) es"

definition notDueBy :: "nat \<Rightarrow> page \<Rightarrow> bool" where
  "notDueBy t p = (case searchDebounce p of None \<Rightarrow> True | Some due \<Rightarrow> t < due)"

definition engineRuns :: "page \<Rightarrow> (nat \<times> effect) list" where
  "engineRuns p = filter (\<lambda>e. kindOf (snd e) = Recomputed \<or> kindOf (snd e) = Thrown) (effects p)"

text \<open>
  \<open>emptyRunShown q p'\<close>: \<open>p'\<close> shows what a run of the engine over an empty collection
  leaves when started on \<open>q\<close>: the empty state, the count text for 0 of 0, the URL and
  the clear button set from the controls of \<open>q\<close>, and the five effects logged.
\<close>

definition emptyRunShown :: "page \<Rightarrow> page \<Rightarrow> bool" where
  "emptyRunShown q p' =
     (libraryContainer p' = EmptyState
      \<and> resultsCount p' = ''Showing all 0 tutorials''
      \<and> locationSearch p' = currentParams q
      \<and> clearButton p' = anyFilter q
      \<and> map (\<lambda>e. kindOf (snd e)) (drop (length (effects q)) (effects p'))
          = [Recomputed, Rendered, Counted, UrlSynced, ClearButtonSet])"

section \<open>Numbers and strings\<close>

lemma digit_cases: "d < 10 \<Longrightarrow> d = 0 \<or> d = 1 \<or> d = 2 \<or> d = 3 \<or> d = 4 \<or> d = 5 \<or> d = 6 \<or> d = 7 \<or> d = 8 \<or> d = (9::nat)"
  by arith

lemma digit_val_digit_char: "d < 10 \<Longrightarrow> digit_val (digit_char d) = Some d"
  using digit_cases [of d] by (auto simp: digit_val_def digit_char_def)

lemma digit_char_plain:
  "d < 10 \<Longrightarrow> \<not> isWhiteSpace (digit_char d) \<and> digit_char d \<noteq> CHR ''-'' \<and> digit_char d \<noteq> CHR ''+''"
  using digit_cases [of d] by (auto simp: isWhiteSpace_def digit_char_def)

lemma nat_of_digits_append:
  "nat_of_digits acc (xs @ ys) =
     (case nat_of_digits acc xs of None \<Rightarrow> None | Some a \<Rightarrow> nat_of_digits a ys)"
  by (induction xs arbitrary: acc) (auto split: option.splits)

lemma nat_of_digits_string_of_nat: "nat_of_digits 0 (string_of_nat n) = Some n"
proof (induction n rule: string_of_nat.induct)
  case (1 n)
  show ?case
  proof (cases "n < 10")
    case True
    then show ?thesis
      by (subst string_of_nat.simps) (simp add: digit_val_digit_char)
  next
    case False
    then have "nat_of_digits 0 (string_of_nat (n div 10)) = Some (n div 10)" using 1 by simp
    moreover have "n mod 10 < 10" by simp
    ultimately show ?thesis
      using False
      by (subst string_of_nat.simps) (simp add: nat_of_digits_append digit_val_digit_char)
  qed
qed

lemma string_of_nat_plain:
  "string_of_nat n \<noteq> [] \<and>
   (\<forall>c\<in>set (string_of_nat n). \<not> isWhiteSpace c \<and> c \<noteq> CHR ''-'' \<and> c \<noteq> CHR ''+'')"
proof (induction n rule: string_of_nat.induct)
  case (1 n)
  show ?case
  proof (cases "n < 10")
    case True
    then show ?thesis
      by (subst (1 2) string_of_nat.simps) (simp add: digit_char_plain)
  next
    case False
    moreover have "n mod 10 < 10" by simp
    ultimately show ?thesis
      using 1 by (subst (1 2) string_of_nat.simps) (simp add: digit_char_plain)
  qed
qed

lemma trim_plain:
  assumes "\<forall>c\<in>set s. \<not> isWhiteSpace c"
  shows "trim s = s"
proof -
  have "dropWhile isWhiteSpace xs = xs" if "\<forall>c\<in>set xs. \<not> isWhiteSpace c" for xs
    using that by (cases xs) auto
  from this [of s] this [of "rev s"] show ?thesis using assms by (simp add: trim_def)
qed

lemma toNumber_string_of_int: "toNumber (string_of_int i) = Some i"
proof (cases "i < 0")
  case True
  let ?s = "string_of_nat (nat (- i))"
  have "\<not> isWhiteSpace CHR ''-''" by (simp add: isWhiteSpace_def)
  then have "trim (CHR ''-'' # ?s) = CHR ''-'' # ?s"
    using string_of_nat_plain [of "nat (- i)"] by (intro trim_plain) auto
  then show ?thesis
    using True string_of_nat_plain [of "nat (- i)"]
    by (simp add: toNumber_def string_of_int_def unsigned_of_string_def nat_of_digits_string_of_nat)
next
  case False
  let ?s = "string_of_nat (nat i)"
  obtain c cs where s: "?s = c # cs"
    using string_of_nat_plain [of "nat i"] by (cases ?s) auto
  have c: "c \<noteq> CHR ''-'' \<and> c \<noteq> CHR ''+''"
    using string_of_nat_plain [of "nat i"] s by auto
  have "trim ?s = ?s" using string_of_nat_plain [of "nat i"] by (intro trim_plain) auto
  moreover have "nat_of_digits 0 (c # cs) = Some (nat i)"
    using nat_of_digits_string_of_nat [of "nat i"] s by simp
  ultimately show ?thesis
    using False c s
    by (simp add: toNumber_def string_of_int_def unsigned_of_string_def del: nat_of_digits.simps)
qed

lemma string_of_int_nonempty: "string_of_int i \<noteq> []"
  using string_of_nat_plain by (simp add: string_of_int_def)

lemma string_of_int_inj: "string_of_int i = string_of_int j \<Longrightarrow> i = j"
  by (metis toNumber_string_of_int option.inject)

section \<open>Grouping, shuffling and ordering\<close>

lemma numberOf_string_of_int: "numberOf (string_of_int y) = y"
  by (simp add: numberOf_def toNumber_string_of_int)

lemma yearKey_eq: "yearKey t = string_of_int y \<longleftrightarrow> year t = y"
  by (auto simp: yearKey_def dest: string_of_int_inj)

lemma numberOf_yearKey: "numberOf (yearKey t) = year t"
  by (simp add: yearKey_def numberOf_string_of_int)

lemma map_fst_pushByYear:
  "map fst (pushByYear t b) =
     (if yearKey t \<in> fst ` set b then map fst b else map fst b @ [yearKey t])"
  by (induction b) force+

lemma lookupYear_pushByYear:
  "lookupYear (pushByYear t b) k = (if k = yearKey t then lookupYear b k @ [t] else lookupYear b k)"
  by (induction b) (auto simp: lookupYear_def)

lemma groupByYear_snoc: "groupByYear (xs @ [t]) = pushByYear t (groupByYear xs)"
  by (simp add: groupByYear_def)

lemma lookupYear_groupByYear: "lookupYear (groupByYear xs) k = filter (\<lambda>t. yearKey t = k) xs"
proof (induction xs rule: rev_induct)
  case Nil
  show ?case by (simp add: groupByYear_def lookupYear_def)
next
  case (snoc t xs)
  then show ?case by (auto simp: groupByYear_snoc lookupYear_pushByYear)
qed

lemma keys_groupByYear:
  "distinct (map fst (groupByYear xs)) \<and> set (map fst (groupByYear xs)) = yearKey ` set xs"
proof (induction xs rule: rev_induct)
  case Nil
  show ?case by (simp add: groupByYear_def)
next
  case (snoc t xs)
  then show ?case by (auto simp: groupByYear_snoc map_fst_pushByYear)
qed

lemma map_fst_updateByYear: "map fst (updateByYear k v b) = map fst b"
  by (induction b) auto

lemma lookupYear_updateByYear:
  "lookupYear (updateByYear k v b) k' =
     (if k' = k \<and> k \<in> fst ` set b then v else lookupYear b k')"
  by (induction b) (force simp: lookupYear_def)+

lemma map_of_None_lookupYear: "map_of b k = None \<Longrightarrow> lookupYear b k = []"
  by (simp add: lookupYear_def)

lemma set_objectKeys: "set (objectKeys b) = fst ` set b"
  by (auto simp: objectKeys_def)

lemma distinct_objectKeys: "distinct (map fst b) \<Longrightarrow> distinct (objectKeys b)"
  by (auto simp: objectKeys_def)

lemma objectKeys_cong: "map fst b = map fst b' \<Longrightarrow> objectKeys b = objectKeys b'"
  by (simp add: objectKeys_def)

lemma fisherYates_mset:
  "i < length xs \<or> i = 0 \<Longrightarrow> mset (fst (fisherYates rnd n i xs)) = mset xs"
proof (induction i arbitrary: n xs)
  case 0
  then show ?case by simp
next
  case (Suc i)
  let ?j = "rnd n mod (Suc i + 1)"
  have i: "Suc i < length xs" using Suc.prems by simp
  have "?j < Suc i + 1" by (rule mod_less_divisor) simp
  then have j: "?j < length xs" using i by linarith
  have "mset (xs[Suc i := xs ! ?j, ?j := xs ! Suc i]) = mset xs"
    using mset_swap [OF j i] .
  moreover have "i < length (xs[Suc i := xs ! ?j, ?j := xs ! Suc i]) \<or> i = 0"
    using i by simp
  ultimately show ?case
    using Suc.IH [of "xs[Suc i := xs ! ?j, ?j := xs ! Suc i]" "Suc n"] by (simp add: Let_def)
qed

lemma sortGroup_shape:
  "\<exists>r. fst (sortGroup rnd n g) = filter isWinner g @ filter isFinalist g @ r
       \<and> mset r = mset (filter isRegular g)"
proof -
  let ?regs = "filter isRegular g"
  have "length ?regs - 1 < length ?regs \<or> length ?regs - 1 = 0" by (cases ?regs) auto
  then have "mset (fst (fisherYates rnd n (length ?regs - 1) ?regs)) = mset ?regs"
    by (rule fisherYates_mset)
  then show ?thesis
    by (auto simp: sortGroup_def Let_def split: prod.splits)
qed

lemma stableTiers_refl: "stableTiers g g"
  by (simp add: stableTiers_def)

lemma filter_empty_of_mset:
  assumes "mset r = mset (filter P g)" "\<And>t. P t \<Longrightarrow> \<not> Q t"
  shows "filter Q r = []"
proof -
  have "set r = set (filter P g)" using assms(1) by (rule mset_eq_setD)
  then show ?thesis using assms(2) by (auto simp: filter_empty_conv)
qed

lemma filter_id_of_mset:
  assumes "mset r = mset (filter P g)"
  shows "filter P r = r"
proof -
  have "set r = set (filter P g)" using assms(1) by (rule mset_eq_setD)
  then show ?thesis by (auto simp: filter_id_conv)
qed

lemma tiered_stable:
  assumes "tiered g0 g"
  shows "stableTiers g0 g"
proof -
  from assms obtain r where g: "g = filter isWinner g0 @ filter isFinalist g0 @ r"
    and r: "mset r = mset (filter isRegular g0)"
    by (auto simp: tiered_def)
  have w: "filter isWinner r = []"
    using r by (rule filter_empty_of_mset) (auto simp: isWinner_def isRegular_def)
  have f: "filter isFinalist r = []"
    using r by (rule filter_empty_of_mset) (auto simp: isFinalist_def isRegular_def)
  have rr: "filter isRegular r = r" using r by (rule filter_id_of_mset)
  have wf: "filter isWinner (filter isFinalist g0) = []"
    by (auto simp: filter_empty_conv isWinner_def isFinalist_def)
  have fw: "filter isFinalist (filter isWinner g0) = []"
    by (auto simp: filter_empty_conv isWinner_def isFinalist_def)
  have rw: "filter isRegular (filter isWinner g0) = []"
    by (auto simp: filter_empty_conv isWinner_def isRegular_def)
  have rf: "filter isRegular (filter isFinalist g0) = []"
    by (auto simp: filter_empty_conv isFinalist_def isRegular_def)
  have ww: "filter isWinner (filter isWinner g0) = filter isWinner g0" by simp
  have ff: "filter isFinalist (filter isFinalist g0) = filter isFinalist g0" by simp
  show ?thesis
    unfolding stableTiers_def g filter_append w f rr wf fw rw rf ww ff
    using r by simp
qed

lemma sortGroup_tiered:
  assumes "stableTiers g0 g"
  shows "tiered g0 (fst (sortGroup rnd n g))"
proof -
  obtain r where "fst (sortGroup rnd n g) = filter isWinner g @ filter isFinalist g @ r"
    and "mset r = mset (filter isRegular g)"
    using sortGroup_shape by blast
  then show ?thesis using assms by (auto simp: tiered_def stableTiers_def)
qed

lemma stable_Nil_tiered: "stableTiers g0 [] \<Longrightarrow> tiered g0 []"
  by (auto simp: stableTiers_def tiered_def)

lemma sortGroups_inv:
  assumes "\<forall>y. stableTiers (G y) (lookupYear b y)"
    and "\<forall>y\<in>S. tiered (G y) (lookupYear b y)"
  shows "map fst (fst (sortGroups rnd n ys b)) = map fst b
       \<and> (\<forall>y. stableTiers (G y) (lookupYear (fst (sortGroups rnd n ys b)) y))
       \<and> (\<forall>y\<in>S \<union> set ys. tiered (G y) (lookupYear (fst (sortGroups rnd n ys b)) y))"
  using assms
proof (induction ys arbitrary: n b S)
  case Nil
  then show ?case by simp
next
  case (Cons y ys)
  show ?case
  proof (cases "map_of b y")
    case None
    then have "lookupYear b y = []" by (simp add: lookupYear_def)
    then have "tiered (G y) (lookupYear b y)"
      using Cons.prems(1) stable_Nil_tiered by metis
    then have "\<forall>z\<in>insert y S. tiered (G z) (lookupYear b z)"
      using Cons.prems(2) by auto
    from Cons.IH [OF Cons.prems(1) this, of n] None show ?thesis by simp
  next
    case (Some g)
    define sorted where "sorted = fst (sortGroup rnd n g)"
    define n' where "n' = snd (sortGroup rnd n g)"
    define b1 where "b1 = updateByYear y sorted b"
    have key: "y \<in> fst ` set b" using Some by (force dest: map_of_SomeD)
    have g: "lookupYear b y = g" using Some by (simp add: lookupYear_def)
    have t: "tiered (G y) sorted"
      unfolding sorted_def using Cons.prems(1) g sortGroup_tiered by metis
    have l1: "lookupYear b1 z = (if z = y then sorted else lookupYear b z)" for z
      unfolding b1_def using key by (simp add: lookupYear_updateByYear)
    have s1: "\<forall>z. stableTiers (G z) (lookupYear b1 z)"
      using Cons.prems(1) t by (auto simp: l1 tiered_stable)
    have t1: "\<forall>z\<in>insert y S. tiered (G z) (lookupYear b1 z)"
      using Cons.prems(2) t by (auto simp: l1)
    have m1: "map fst b1 = map fst b" by (simp add: b1_def map_fst_updateByYear)
    have step: "sortGroups rnd n (y # ys) b = sortGroups rnd n' ys b1"
      using Some by (simp add: b1_def sorted_def n'_def split: prod.splits)
    from Cons.IH [OF s1 t1, of n'] show ?thesis
      unfolding step m1 by simp
  qed
qed

lemma tiered_subset: "tiered g0 g \<Longrightarrow> set g \<subseteq> set g0"
proof -
  assume "tiered g0 g"
  then obtain r where g: "g = filter isWinner g0 @ filter isFinalist g0 @ r"
    and r: "mset r = mset (filter isRegular g0)"
    by (auto simp: tiered_def)
  have "set r = set (filter isRegular g0)" using r by (rule mset_eq_setD)
  then show ?thesis unfolding g by auto
qed

lemma yearsDescending_props:
  assumes "distinct (map fst b)"
  shows "distinct (yearsDescending b)" "set (yearsDescending b) = fst ` set b"
    "sorted_wrt (\<lambda>a b. a \<ge> b) (map numberOf (yearsDescending b))"
proof -
  show "distinct (yearsDescending b)"
    using assms by (simp add: yearsDescending_def distinct_objectKeys)
  show "set (yearsDescending b) = fst ` set b"
    by (simp add: yearsDescending_def set_objectKeys)
  have "sorted (map (\<lambda>k. - numberOf k) (yearsDescending b))"
    by (simp add: yearsDescending_def)
  then show "sorted_wrt (\<lambda>a b. a \<ge> b) (map numberOf (yearsDescending b))"
    by (simp add: sorted_map sorted_wrt_map)
qed

lemma strict_of_distinct_sorted:
  "distinct ks \<Longrightarrow> sorted_wrt (\<lambda>a b. a \<ge> b) ks \<Longrightarrow> sorted_wrt (\<lambda>a b. a > b) (ks :: int list)"
  by (induction ks) (auto simp: less_le)

lemma filter_concat_groups:
  assumes "distinct ks" "\<forall>k x. x \<in> set (G k) \<longrightarrow> f x = k"
  shows "filter (\<lambda>x. f x = y) (concat (map G ks)) = (if y \<in> set ks then G y else [])"
  using assms(1)
proof (induction ks)
  case Nil
  show ?case by simp
next
  case (Cons k ks)
  have a: "filter (\<lambda>x. f x = y) (G k) = (if y = k then G k else [])"
    using assms(2) by (auto simp: filter_id_conv filter_empty_conv)
  from Cons show ?case by (auto simp: a)
qed

lemma sorted_wrt_all: "(\<forall>x\<in>set xs. \<forall>y\<in>set xs. P x y) \<Longrightarrow> sorted_wrt P xs"
  by (induction xs) auto

lemma sorted_concat_groups:
  assumes "sorted_wrt (\<lambda>a b. a \<ge> b) (map h ks :: int list)"
    "\<forall>k x. x \<in> set (G k) \<longrightarrow> f x = h k"
  shows "sorted_wrt (\<lambda>a b. a \<ge> b) (map f (concat (map G ks)))"
  using assms(1)
proof (induction ks)
  case Nil
  show ?case by simp
next
  case (Cons k ks)
  have "sorted_wrt (\<lambda>a b. a \<ge> b) (map f (G k))"
    using assms(2) by (intro sorted_wrt_all) simp
  then show ?case
    using Cons assms(2) by (auto simp: sorted_wrt_append)
qed

lemma shuffle_decomposition:
  "\<exists>G. fst (shuffleWithinYears rnd n xs) = concat (map G (yearsDescending (groupByYear xs)))
      \<and> (\<forall>k. tiered (filter (\<lambda>t. yearKey t = k) xs) (G k))"
proof -
  define b0 where "b0 = groupByYear xs"
  define b' where "b' = fst (sortGroups rnd n (objectKeys b0) b0)"
  let ?G0 = "\<lambda>k. filter (\<lambda>t. yearKey t = k) xs"
  have s0: "\<forall>k. stableTiers (?G0 k) (lookupYear b0 k)"
    by (simp add: b0_def lookupYear_groupByYear stableTiers_refl)
  have "\<forall>k\<in>{}. tiered (?G0 k) (lookupYear b0 k)" by simp
  from sortGroups_inv [OF s0 this, of rnd n "objectKeys b0"]
  have m: "map fst b' = map fst b0"
    and st: "\<forall>k. stableTiers (?G0 k) (lookupYear b' k)"
    and ti: "\<forall>k\<in>set (objectKeys b0). tiered (?G0 k) (lookupYear b' k)"
    by (simp_all add: b'_def)
  have all: "tiered (?G0 k) (lookupYear b' k)" for k
  proof (cases "k \<in> set (objectKeys b0)")
    case True
    then show ?thesis using ti by blast
  next
    case False
    then have "k \<notin> fst ` set b'"
      using m by (metis set_objectKeys objectKeys_cong)
    then have "map_of b' k = None" by (simp add: map_of_eq_None_iff)
    then have "lookupYear b' k = []" by (simp add: lookupYear_def)
    then show ?thesis using st stable_Nil_tiered by metis
  qed
  have "yearsDescending b' = yearsDescending b0"
    using m by (simp add: yearsDescending_def objectKeys_cong [OF m])
  moreover have "flatMapYears b' ks = concat (map (lookupYear b') ks)" for ks
    unfolding flatMapYears_def lookupYear_def ..
  ultimately have "fst (shuffleWithinYears rnd n xs) = concat (map (lookupYear b') (yearsDescending b0))"
    by (simp add: shuffleWithinYears_def b'_def b0_def Let_def case_prod_beta)
  then show ?thesis using all unfolding b0_def by blast
qed

lemma shuffle_year_group:
  "tiered (filter (\<lambda>t. year t = y) xs) (filter (\<lambda>t. year t = y) (fst (shuffleWithinYears rnd n xs)))"
proof -
  obtain G where res: "fst (shuffleWithinYears rnd n xs) = concat (map G (yearsDescending (groupByYear xs)))"
    and G: "\<forall>k. tiered (filter (\<lambda>t. yearKey t = k) xs) (G k)"
    using shuffle_decomposition by blast
  have yr: "\<forall>k x. x \<in> set (G k) \<longrightarrow> yearKey x = k"
    using G tiered_subset by fastforce
  have d: "distinct (yearsDescending (groupByYear xs))"
    by (simp add: yearsDescending_props keys_groupByYear)
  have e: "(\<lambda>t. year t = y) = (\<lambda>t. yearKey t = string_of_int y)"
    by (simp add: yearKey_eq)
  have f: "filter (\<lambda>t. yearKey t = string_of_int y) (fst (shuffleWithinYears rnd n xs))
      = (if string_of_int y \<in> set (yearsDescending (groupByYear xs)) then G (string_of_int y) else [])"
    unfolding res using d yr by (rule filter_concat_groups)
  show ?thesis
  proof (cases "string_of_int y \<in> set (yearsDescending (groupByYear xs))")
    case True
    then show ?thesis unfolding e using f G by simp
  next
    case False
    then have "string_of_int y \<notin> yearKey ` set xs"
      using keys_groupByYear [of xs] by (simp add: yearsDescending_props)
    then have "filter (\<lambda>t. yearKey t = string_of_int y) xs = []"
      by (force simp: filter_empty_conv)
    then show ?thesis unfolding e using f False by (simp add: tiered_def)
  qed
qed

lemma shuffle_years_sorted:
  "sorted_wrt (\<lambda>a b. a \<ge> b) (map year (fst (shuffleWithinYears rnd n xs)))"
proof -
  obtain G where res: "fst (shuffleWithinYears rnd n xs) = concat (map G (yearsDescending (groupByYear xs)))"
    and G: "\<forall>k. tiered (filter (\<lambda>t. yearKey t = k) xs) (G k)"
    using shuffle_decomposition by blast
  have "\<forall>k x. x \<in> set (G k) \<longrightarrow> yearKey x = k"
    using G tiered_subset by fastforce
  then have yr: "\<forall>k x. x \<in> set (G k) \<longrightarrow> year x = numberOf k"
    using numberOf_yearKey by metis
  have "sorted_wrt (\<lambda>a b. a \<ge> b) (map numberOf (yearsDescending (groupByYear xs)))"
    by (simp add: yearsDescending_props keys_groupByYear)
  then show ?thesis unfolding res using yr by (rule sorted_concat_groups)
qed




section \<open>The matched list\<close>

lemma filterArray_Inr:
  "filterArray p xs = Inr ys \<Longrightarrow> ys = filter (\<lambda>x. p x = Inr True) xs"
proof (induction xs arbitrary: ys)
  case Nil
  then show ?case by simp
next
  case (Cons x xs)
  then show ?case by (auto split: sum.splits if_splits)
qed

lemma matchedTutorials_Inr:
  "matchedTutorials all sv yv tv = Inr matched \<Longrightarrow> matched = filter (passes sv yv tv) all"
  unfolding matchedTutorials_def passes_def by (rule filterArray_Inr)

lemma applyFilters_Inr:
  assumes "applyFilters rnd n all sv yv tv = Inr (result, n')"
  shows "result = fst (shuffleWithinYears rnd n (filter (passes sv yv tv) all))"
proof -
  from assms obtain matched where m: "matchedTutorials all sv yv tv = Inr matched"
    and r: "shuffleWithinYears rnd n matched = (result, n')"
    by (auto simp: applyFilters_def split: sum.splits)
  from m have "matched = filter (passes sv yv tv) all" by (rule matchedTutorials_Inr)
  with r show ?thesis by simp
qed

lemma strict_remdups_adj:
  "sorted_wrt (\<lambda>a b. a \<ge> b) (zs :: int list) \<Longrightarrow> sorted_wrt (\<lambda>a b. a > b) (remdups_adj zs)"
proof (induction zs rule: remdups_adj.induct)
  case 1
  show ?case by simp
next
  case (2 x)
  show ?case by simp
next
  case (3 x y xs)
  then show ?case by (cases "x = y") force+
qed

lemma yearSections_years: "map fst (yearSections xs) = yearsDescending (groupByYear xs)"
  by (simp add: yearSections_def Let_def comp_def)

lemma descending_unique:
  assumes "sorted_wrt (\<lambda>a b. a > b) (xs :: int list)" "sorted_wrt (\<lambda>a b. a > b) ys"
    "set xs = set ys"
  shows "xs = ys"
proof -
  have "sorted_wrt (<) (map uminus xs)" "sorted_wrt (<) (map uminus ys)"
    using assms(1,2) by (simp_all add: sorted_wrt_map)
  moreover have "set (map uminus xs) = set (map uminus ys)" using assms(3) by simp
  ultimately have "map uminus xs = map uminus ys" by (metis strict_sorted_equal)
  then show ?thesis by (simp add: inj_on_def inj_map_eq_map [OF injI])
qed

lemma yearSections_labels:
  assumes "sorted_wrt (\<lambda>a b. a \<ge> b) (map year xs)"
  shows "map fst (yearSections xs) = map string_of_int (remdups_adj (map year xs))"
proof -
  let ?ks = "yearsDescending (groupByYear xs)"
  have d: "distinct ?ks" and s: "set ?ks = yearKey ` set xs"
    and o: "sorted_wrt (\<lambda>a b. a \<ge> b) (map numberOf ?ks)"
    using keys_groupByYear [of xs] by (simp_all add: yearsDescending_props)
  have k: "string_of_int (numberOf k) = k" if "k \<in> set ?ks" for k
    using that s by (auto simp: yearKey_def numberOf_string_of_int)
  have "inj_on numberOf (set ?ks)"
    by (rule inj_onI) (metis k)
  then have "distinct (map numberOf ?ks)" using d by (simp add: distinct_map)
  then have 1: "sorted_wrt (\<lambda>a b. a > b) (map numberOf ?ks)"
    using o by (rule strict_of_distinct_sorted)
  have 2: "sorted_wrt (\<lambda>a b. a > b) (remdups_adj (map year xs))"
    using assms by (rule strict_remdups_adj)
  have "set (map numberOf ?ks) = set (remdups_adj (map year xs))"
    using s by (auto simp: numberOf_yearKey image_iff)
  with 1 2 have "map numberOf ?ks = remdups_adj (map year xs)" by (rule descending_unique)
  then have "map string_of_int (remdups_adj (map year xs)) = map string_of_int (map numberOf ?ks)"
    by simp
  also have "\<dots> = map (\<lambda>k. string_of_int (numberOf k)) ?ks"
    by (simp add: comp_def)
  also have "\<dots> = ?ks" using k by (simp add: map_idI)
  finally show ?thesis by (simp add: yearSections_years)
qed

lemma filterArray_Inr_all:
  "filterArray p xs = Inr ys \<Longrightarrow> x \<in> set xs \<Longrightarrow> \<exists>b. p x = Inr b"
proof (induction xs arbitrary: ys)
  case Nil
  then show ?case by simp
next
  case (Cons a xs)
  then show ?case by (auto split: sum.splits)
qed

lemma filterArray_total:
  "(\<And>x. x \<in> set xs \<Longrightarrow> \<exists>b. p x = Inr b) \<Longrightarrow> \<exists>ys. filterArray p xs = Inr ys"
proof (induction xs)
  case Nil
  show ?case by simp
next
  case (Cons a xs)
  then obtain b where "p a = Inr b" by (meson list.set_intros(1))
  moreover obtain ys where "filterArray p xs = Inr ys" using Cons by (meson list.set_intros(2))
  ultimately show ?case by simp
qed

lemma matchesSearch_Inr:
  "matchesSearch (trim (toLowerCase sv)) t = Inr b \<Longrightarrow> b = searchHolds sv t"
  by (auto simp: matchesSearch_def searchHolds_def includesStr_def authorsOf_def keywordsOf_def
      split: if_splits option.splits)

lemma matchesTopic_Inr: "matchesTopic tv t = Inr b \<Longrightarrow> b = topicHolds tv t"
  by (auto simp: matchesTopic_def topicHolds_def keywordsOf_def split: if_splits option.splits)

lemma matchesAll_Inr:
  assumes "matchesAll (trim (toLowerCase sv)) yv tv t = Inr b"
  shows "b = (searchHolds sv t \<and> yearHolds yv t \<and> topicHolds tv t)"
proof -
  from assms obtain ms mt where s: "matchesSearch (trim (toLowerCase sv)) t = Inr ms"
    and tp: "matchesTopic tv t = Inr mt" and b: "b = (ms \<and> matchesYear yv t \<and> mt)"
    by (auto simp: matchesAll_def split: sum.splits)
  show ?thesis
    unfolding b matchesSearch_Inr [OF s] matchesTopic_Inr [OF tp]
    by (simp add: matchesYear_def yearHolds_def looseEquals_def)
qed

lemma matchesAll_total:
  "hasLists t \<Longrightarrow> \<exists>b. matchesAll term yv tv t = Inr b"
  by (auto simp: hasLists_def matchesAll_def matchesSearch_def matchesTopic_def
      split: sum.splits if_splits)

lemma matchedTutorials_holds:
  assumes "matchedTutorials all sv yv tv = Inr matched"
  shows "matched = filter (\<lambda>t. searchHolds sv t \<and> yearHolds yv t \<and> topicHolds tv t) all"
proof -
  have m: "matched = filter (passes sv yv tv) all"
    using assms by (rule matchedTutorials_Inr)
  have "passes sv yv tv t = (searchHolds sv t \<and> yearHolds yv t \<and> topicHolds tv t)"
    if "t \<in> set all" for t
  proof -
    from filterArray_Inr_all [OF assms [unfolded matchedTutorials_def] that]
    obtain b where b: "matchesAll (trim (toLowerCase sv)) yv tv t = Inr b" by blast
    from matchesAll_Inr [OF b] b show ?thesis by (simp add: passes_def)
  qed
  then show ?thesis unfolding m by (intro filter_cong) auto
qed

lemma matchedTutorials_total:
  assumes "list_all hasLists all"
  shows "\<exists>m. matchedTutorials all sv yv tv = Inr m"
  unfolding matchedTutorials_def
  using assms by (intro filterArray_total matchesAll_total) (simp add: list_all_iff)

lemma yearHolds_string_of_int: "yearHolds (string_of_int y) t \<longleftrightarrow> year t = y"
  by (auto simp: yearHolds_def toNumber_string_of_int string_of_int_nonempty)

section \<open>A run and its effects\<close>

lemma filterTutorials_eq:
  "filterTutorials rnd p =
     (case applyFilters rnd (randomCalls p) (allTutorials p) (searchInput p)
             (selectValue (yearSelect p)) (selectValue (topicSelect p)) of
        Inl e \<Rightarrow> Inl e
      | Inr (filtered, n') \<Rightarrow> Inr (afterRun filtered n' p))"
  by (simp add: filterTutorials_def afterRun_def renderTutorials_def updateResultsCount_def
      showEmptyState_def updateURL_def updateClearButton_def logEffect_def Let_def
      countText_def rendered_def anyFilter_def currentParams_def
      split: sum.splits prod.splits)

lemma filterTutorials_Inr:
  assumes "filterTutorials rnd p = Inr p'"
  shows "\<exists>n'. applyFilters rnd (randomCalls p) (allTutorials p) (searchInput p)
             (selectValue (yearSelect p)) (selectValue (topicSelect p))
           = Inr (filteredTutorials p', n')
         \<and> p' = afterRun (filteredTutorials p') n' p"
proof -
  from assms obtain filtered n' where
    a: "applyFilters rnd (randomCalls p) (allTutorials p) (searchInput p)
          (selectValue (yearSelect p)) (selectValue (topicSelect p)) = Inr (filtered, n')"
    and p': "p' = afterRun filtered n' p"
    by (auto simp: filterTutorials_eq split: sum.splits)
  have "filteredTutorials p' = filtered" by (simp add: p' afterRun_def)
  then show ?thesis using a p' by blast
qed

section \<open>The controls and the URL\<close>

lemma restoreFilters_fields:
  "searchInput (restoreFilters p) =
     (case paramsGet (locationSearch p) ''search'' of Some v \<Rightarrow> v | None \<Rightarrow> searchInput p)"
  "yearSelect (restoreFilters p) =
     (case paramsGet (locationSearch p) ''year'' of
        Some v \<Rightarrow> setSelectValue v (yearSelect p) | None \<Rightarrow> yearSelect p)"
  "topicSelect (restoreFilters p) =
     (case paramsGet (locationSearch p) ''topic'' of
        Some v \<Rightarrow> setSelectValue v (topicSelect p) | None \<Rightarrow> topicSelect p)"
  by (simp_all add: restoreFilters_def Let_def split: option.splits)

lemma locationSearch_updateURL: "locationSearch (updateURL p) = currentParams p"
  by (simp add: updateURL_def currentParams_def logEffect_def Let_def)

lemma paramsGet_filterParams:
  "paramsGet (filterParams sv yv tv) ''search'' = (if sv = [] then None else Some sv)"
  "paramsGet (filterParams sv yv tv) ''year'' = (if yv = [] then None else Some yv)"
  "paramsGet (filterParams sv yv tv) ''topic'' = (if tv = [] then None else Some tv)"
  by (simp_all add: filterParams_def paramsGet_def Let_def)

lemma filterParams_values:
  "list_all (\<lambda>kv. snd kv \<noteq> []) (filterParams sv yv tv)"
  "set (map fst (filterParams sv yv tv)) \<subseteq> {''search'', ''year'', ''topic''}"
  "distinct (map fst (filterParams sv yv tv))"
  by (simp_all add: filterParams_def Let_def)

lemma scenarioPage2022_fields:
  "allTutorials scenarioPage2022 = scenario" "searchInput scenarioPage2022 = []"
  "selectValue (yearSelect scenarioPage2022) = ''2022''"
  "selectValue (topicSelect scenarioPage2022) = []" "randomCalls scenarioPage2022 = 0"
  "effects scenarioPage2022 = []" "clock scenarioPage2022 = 0"
  by (simp_all add: scenarioPage2022_def scenarioPage_def setSelectValue_def)

lemma scenarioPage_fields:
  "allTutorials scenarioPage = scenario" "searchInput scenarioPage = []"
  "selectValue (yearSelect scenarioPage) = []"
  "selectValue (topicSelect scenarioPage) = []" "randomCalls scenarioPage = 0"
  "effects scenarioPage = []" "clock scenarioPage = 0"
  by (simp_all add: scenarioPage_def)

lemma string_of_int_scenario:
  "string_of_int 2023 = ''2023''" "string_of_int 2022 = ''2022''"
  by (simp_all add: string_of_int_def string_of_nat.simps digit_char_def)

lemma abcPage_fields:
  "locationSearch abcPage = [(''year'', ''abc'')]"
  "optionValues (yearSelect abcPage) = {[], ''2023'', ''2022''}"
  "allTutorials abcPage = scenario"
  "searchInput abcPage = []" "selectValue (yearSelect abcPage) = []"
  "selectValue (topicSelect abcPage) = []" "randomCalls abcPage = 0"
  by (auto simp: abcPage_def populateFilters_def init_def showLoading_def logEffect_def
      scenario_def deepLearningBasics_def graphs101_def compilers_def string_of_int_scenario)

section \<open>The timer\<close>

lemma step_SearchInput:
  assumes "clock p \<le> t" "notDueBy t p"
  shows "step rnd (t, SearchInput v) p
       = p\<lparr>clock := t, searchInput := v, searchDebounce := Some (t + 300)\<rparr>"
  using assms
  by (simp add: step_def advance_def handleSearch_def notDueBy_def max_def split: option.splits)

lemma run_Cons: "run rnd (e # es) p = run rnd es (step rnd e p)"
  by (simp add: run_def)

lemma run_burst:
  assumes "clock p \<le> t" "notDueBy t p" "withinQuietPeriod t es"
  shows "run rnd (searchInputs ((t, v) # es)) p
       = p\<lparr>clock := fst (last ((t, v) # es)), searchInput := snd (last ((t, v) # es)),
            searchDebounce := Some (fst (last ((t, v) # es)) + 300)\<rparr>"
  using assms
proof (induction es arbitrary: p t v)
  case Nil
  then show ?case by (simp add: searchInputs_def run_def step_SearchInput)
next
  case (Cons e es)
  let ?p1 = "p\<lparr>clock := t, searchInput := v, searchDebounce := Some (t + 300)\<rparr>"
  have s: "step rnd (t, SearchInput v) p = ?p1"
    using Cons.prems(1,2) by (rule step_SearchInput)
  have c: "clock ?p1 \<le> fst e" "notDueBy (fst e) ?p1" "withinQuietPeriod (fst e) es"
    using Cons.prems(3) by (simp_all add: notDueBy_def)
  have "run rnd (searchInputs ((t, v) # e # es)) p = run rnd (searchInputs ((fst e, snd e) # es)) ?p1"
    by (simp add: searchInputs_def run_Cons s)
  also have "\<dots> = ?p1\<lparr>clock := fst (last ((fst e, snd e) # es)),
      searchInput := snd (last ((fst e, snd e) # es)),
      searchDebounce := Some (fst (last ((fst e, snd e) # es)) + 300)\<rparr>"
    using c by (rule Cons.IH)
  finally show ?case by simp
qed

lemma engineRuns_callFilterTutorials:
  "engineRuns (callFilterTutorials rnd p) = engineRuns p @ [last (engineRuns (callFilterTutorials rnd p))]
   \<and> fst (last (engineRuns (callFilterTutorials rnd p))) = clock p"
  by (auto simp: callFilterTutorials_def filterTutorials_eq engineRuns_def afterRun_def logEffect_def
      split: sum.splits)

section \<open>Runs over the empty collection\<close>

lemma applyFilters_Nil: "applyFilters rnd n [] sv yv tv = Inr ([], n)"
  by (simp add: applyFilters_def matchedTutorials_def shuffleWithinYears_def groupByYear_def
      objectKeys_def yearsDescending_def flatMapYears_def)

lemma countText_0_0: "countText 0 0 = ''Showing all 0 tutorials''"
  by (simp add: countText_def string_of_nat.simps digit_char_def)

lemma callFilterTutorials_empty:
  assumes "allTutorials q = []"
  shows "callFilterTutorials rnd q = afterRun [] (randomCalls q) q"
  using assms by (simp add: callFilterTutorials_def filterTutorials_eq applyFilters_Nil)

lemma emptyRunShown_afterRun:
  assumes "allTutorials q = []"
  shows "emptyRunShown q (afterRun [] n q)"
  using assms by (simp add: emptyRunShown_def afterRun_def rendered_def countText_0_0)

lemma emptyRunShown_call:
  assumes "allTutorials q = []"
  shows "emptyRunShown q (callFilterTutorials rnd q)"
  using assms by (simp add: callFilterTutorials_empty emptyRunShown_afterRun)

lemma emptyRunShown_clock:
  "emptyRunShown q p' \<Longrightarrow> emptyRunShown q (p'\<lparr>clock := T\<rparr>)"
  by (simp add: emptyRunShown_def)

section \<open>The examples\<close>

lemma example_keys:
  "yearKey deepLearningBasics = ''2023''" "yearKey graphs101 = ''2023''"
  "yearKey compilers = ''2022''" "yearKey nineNineNine = ''999''"
  "yearKey oneThousand = ''1000''"
  by (simp_all add: yearKey_def deepLearningBasics_def graphs101_def compilers_def
      nineNineNine_def oneThousand_def string_of_int_def string_of_nat.simps digit_char_def)

lemma example_numbers:
  "numberOf ''2023'' = 2023" "numberOf ''2022'' = 2022" "numberOf ''999'' = 999"
  "numberOf ''1000'' = 1000"
  by (simp_all add: numberOf_def toNumber_def trim_def isWhiteSpace_def unsigned_of_string_def
      digit_val_def)

lemma example_indices:
  "isArrayIndex ''2023''" "isArrayIndex ''2022''" "isArrayIndex ''999''" "isArrayIndex ''1000''"
  by (simp_all add: isArrayIndex_def toNumber_def trim_def isWhiteSpace_def
      unsigned_of_string_def digit_val_def string_of_int_def string_of_nat.simps digit_char_def)

lemma example_tiers:
  "isWinner deepLearningBasics" "\<not> isFinalist deepLearningBasics" "\<not> isRegular deepLearningBasics"
  "\<not> isWinner graphs101" "\<not> isFinalist graphs101" "isRegular graphs101"
  "\<not> isWinner compilers" "isFinalist compilers" "\<not> isRegular compilers"
  "\<not> isWinner nineNineNine" "\<not> isFinalist nineNineNine" "isRegular nineNineNine"
  "\<not> isWinner oneThousand" "\<not> isFinalist oneThousand" "isRegular oneThousand"
  by (simp_all add: isWinner_def isFinalist_def isRegular_def deepLearningBasics_def
      graphs101_def compilers_def nineNineNine_def oneThousand_def)

lemma shuffle_scenario: "shuffleWithinYears (\<lambda>n. 0) 0 scenario = (scenario, 0)"
  by (simp add: shuffleWithinYears_def groupByYear_def scenario_def example_keys
      objectKeys_def example_indices example_numbers sortGroup_def example_tiers
      yearsDescending_def flatMapYears_def)

lemma shuffle_compilers: "shuffleWithinYears (\<lambda>n. 0) 0 [compilers] = ([compilers], 0)"
  by (simp add: shuffleWithinYears_def groupByYear_def example_keys
      objectKeys_def example_indices example_numbers sortGroup_def example_tiers
      yearsDescending_def flatMapYears_def)

lemma shuffle_999_1000:
  "shuffleWithinYears (\<lambda>n. 0) 0 [nineNineNine, oneThousand] = ([oneThousand, nineNineNine], 0)"
  by (simp add: shuffleWithinYears_def groupByYear_def example_keys
      objectKeys_def example_indices example_numbers sortGroup_def example_tiers
      yearsDescending_def flatMapYears_def)



lemma yearSections_compilers: "yearSections [compilers] = [(''2022'', [compilers])]"
  by (simp add: yearSections_def groupByYear_def example_keys objectKeys_def example_indices
      example_numbers yearsDescending_def)

lemma matched_examples:
  "matchedTutorials scenario [] [] [] = Inr scenario"
  "matchedTutorials scenario [] ''2022'' [] = Inr [compilers]"
  "matchedTutorials [nineNineNine, oneThousand] [] [] [] = Inr [nineNineNine, oneThousand]"
  by code_simp+

lemma applyFilters_examples:
  "applyFilters (\<lambda>n. 0) 0 scenario [] [] [] = Inr (scenario, 0)"
  "applyFilters (\<lambda>n. 0) 0 scenario [] ''2022'' [] = Inr ([compilers], 0)"
  "applyFilters (\<lambda>n. 0) 0 [nineNineNine, oneThousand] [] [] []
     = Inr ([oneThousand, nineNineNine], 0)"
  by (simp_all add: applyFilters_def matched_examples shuffle_scenario shuffle_compilers
      shuffle_999_1000)

section \<open>The claims\<close>

text \<open>
  Claim C1. A tutorial is in the matched set of the filter engine exactly when it
  satisfies all active sub-filters, an empty one matching everything: the search text
  is a case-insensitive substring of the title, of an author or of a keyword; the year
  equals the year filter; the topic is a member of the keywords.

  The code trims the search text before it uses it (\<open>toLowerCase().trim()\<close>), so a
  search text with white space around it matches where the untrimmed text is not a
  substring, and a search text of white space only matches everything. As amended:
  whenever the filter callback does not throw, and it never does when every tutorial
  carries authors and keywords, the matched list is the tutorials of the collection, in
  order, that satisfy the three sub-filters, where the search sub-filter takes the
  search text lower-cased and trimmed, the year sub-filter compares the number the year
  value denotes with the tutorial's year (for the value \<open>String(y)\<close>: the year is \<open>y\<close>),
  and the topic sub-filter is membership among the keywords.
\<close>

theorem C1_matched_set:
  "(matchedTutorials all searchValue yearValue topicValue = Inr matched \<longrightarrow>
      matched = filter (\<lambda>t. searchHolds searchValue t \<and> yearHolds yearValue t
                           \<and> topicHolds topicValue t) all)
   \<and> (list_all hasLists all \<longrightarrow>
        (\<exists>m. matchedTutorials all searchValue yearValue topicValue = Inr m))
   \<and> (yearHolds (string_of_int y) t \<longleftrightarrow> year t = y)"
  using matchedTutorials_holds matchedTutorials_total yearHolds_string_of_int by blast

theorem C1_matched_set_witness:
  "matchedTutorials scenario '' Graph '' ''2023'' ''theory'' = Inr [graphs101]
   \<and> [graphs101] = filter (\<lambda>t. searchHolds '' Graph '' t \<and> yearHolds ''2023'' t
                           \<and> topicHolds ''theory'' t) scenario
   \<and> list_all hasLists scenario
   \<and> (\<exists>m. matchedTutorials scenario '' Graph '' ''2023'' ''theory'' = Inr m)
   \<and> (yearHolds (string_of_int 2022) compilers \<longleftrightarrow> year compilers = 2022)"
proof -
  have h: "matchedTutorials scenario '' Graph '' ''2023'' ''theory'' = Inr [graphs101]"
    by code_simp
  have w: "list_all hasLists scenario"
    by code_simp
  note c = C1_matched_set [of scenario "'' Graph ''" "''2023''" "''theory''" "[graphs101]"
      2022 compilers]
  from c h have a: "[graphs101] = filter (\<lambda>t. searchHolds '' Graph '' t \<and> yearHolds ''2023'' t
                           \<and> topicHolds ''theory'' t) scenario" by blast
  from c w have b: "\<exists>m. matchedTutorials scenario '' Graph '' ''2023'' ''theory'' = Inr m"
    by blast
  from c have d: "yearHolds (string_of_int 2022) compilers \<longleftrightarrow> year compilers = 2022"
    by blast
  from h a w b d show ?thesis by blast
qed

theorem C1_counterexample:
  "matchedTutorials [graphs101] '' graph'' [] [] = Inr [graphs101]
   \<and> \<not> claimedSearch '' graph'' graphs101"
  by code_simp

text \<open>
  Claim C2. In every result of the filter engine, the tutorials of a year are its
  winners, then its finalists, then its tutorials with status regular or unset; the
  winners stand in the order they have in the input collection, and so do the
  finalists; only the regular tier comes in another order. For every year \<open>y\<close>, the
  tutorials of year \<open>y\<close> in the result are: the winners of year \<open>y\<close> that pass the
  filters, in the order of \<open>allTutorials\<close>; then the finalists likewise; then a
  rearrangement of the regular ones.
\<close>

theorem C2_tiers_in_year_group:
  assumes "applyFilters rnd n all searchValue yearValue topicValue = Inr (result, n')"
  shows "\<exists>regulars.
     filter (\<lambda>t. year t = y) result =
       filter (\<lambda>t. year t = y \<and> isWinner t) (filter (passes searchValue yearValue topicValue) all)
       @ filter (\<lambda>t. year t = y \<and> isFinalist t) (filter (passes searchValue yearValue topicValue) all)
       @ regulars
     \<and> mset regulars =
         mset (filter (\<lambda>t. year t = y \<and> isRegular t) (filter (passes searchValue yearValue topicValue) all))"
proof -
  let ?m = "filter (passes searchValue yearValue topicValue) all"
  have r: "result = fst (shuffleWithinYears rnd n ?m)"
    using assms by (rule applyFilters_Inr)
  have "tiered (filter (\<lambda>t. year t = y) ?m) (filter (\<lambda>t. year t = y) result)"
    unfolding r by (rule shuffle_year_group)
  then obtain regs where
    g: "filter (\<lambda>t. year t = y) result =
          filter isWinner (filter (\<lambda>t. year t = y) ?m)
          @ filter isFinalist (filter (\<lambda>t. year t = y) ?m) @ regs"
    and m: "mset regs = mset (filter isRegular (filter (\<lambda>t. year t = y) ?m))"
    unfolding tiered_def by blast
  have c: "filter P (filter (\<lambda>t. year t = y) ?m) = filter (\<lambda>t. year t = y \<and> P t) ?m" for P
    by (rule filter_cong [THEN trans [OF filter_filter]]) auto
  show ?thesis
    using g m unfolding c by blast
qed

theorem C2_tiers_in_year_group_witness:
  "applyFilters (\<lambda>n. 0) 0 scenario [] [] [] = Inr (scenario, 0)
   \<and> (\<exists>regulars.
     filter (\<lambda>t. year t = 2023) scenario =
       filter (\<lambda>t. year t = 2023 \<and> isWinner t) (filter (passes [] [] []) scenario)
       @ filter (\<lambda>t. year t = 2023 \<and> isFinalist t) (filter (passes [] [] []) scenario)
       @ regulars
     \<and> mset regulars =
         mset (filter (\<lambda>t. year t = 2023 \<and> isRegular t) (filter (passes [] [] []) scenario)))"
proof -
  have h: "applyFilters (\<lambda>n. 0) 0 scenario [] [] [] = Inr (scenario, 0)"
    by (rule applyFilters_examples)
  from C2_tiers_in_year_group [OF h, of 2023] h show ?thesis by (rule conjI [rotated])
qed

text \<open>
  Claim C3. In every result of the filter engine the year groups come in strictly
  descending order of the year as a number: the years of the result list, with
  repetitions of a year merged, decrease strictly, and the sections that
  \<open>renderTutorials\<close> builds from the list are headed by exactly these years, in this
  order. The keys of \<open>byYear\<close> are strings and the comparator of the sort subtracts
  them as numbers; the witness has the years 999 and 1000, which compare the other way
  round as strings.
\<close>

theorem C3_years_strictly_descending:
  assumes "applyFilters rnd n all searchValue yearValue topicValue = Inr (result, n')"
  shows "sorted_wrt (\<lambda>a b. a > b) (remdups_adj (map year result))
       \<and> map fst (yearSections result) = map string_of_int (remdups_adj (map year result))"
proof -
  have "result = fst (shuffleWithinYears rnd n (filter (passes searchValue yearValue topicValue) all))"
    using assms by (rule applyFilters_Inr)
  then have "sorted_wrt (\<lambda>a b. a \<ge> b) (map year result)"
    by (simp add: shuffle_years_sorted)
  then show ?thesis
    by (simp add: strict_remdups_adj yearSections_labels)
qed

theorem C3_years_strictly_descending_witness:
  "applyFilters (\<lambda>n. 0) 0 [nineNineNine, oneThousand] [] [] [] = Inr ([oneThousand, nineNineNine], 0)
   \<and> sorted_wrt (\<lambda>a b. a > b) (remdups_adj (map year [oneThousand, nineNineNine]))
   \<and> map fst (yearSections [oneThousand, nineNineNine])
       = map string_of_int (remdups_adj (map year [oneThousand, nineNineNine]))"
proof -
  have h: "applyFilters (\<lambda>n. 0) 0 [nineNineNine, oneThousand] [] [] []
      = Inr ([oneThousand, nineNineNine], 0)"
    by (rule applyFilters_examples)
  from C3_years_strictly_descending [OF h] h show ?thesis by (rule conjI [rotated])
qed

text \<open>
  Claim C4. Reading back the query that \<open>updateURL\<close> writes restores the filter
  state, and the query has no parameter for an empty field and no empty-valued
  parameter. \<open>p\<close> is the page that writes the query and \<open>f\<close> the freshly loaded page
  that reads it: its controls are empty, and its selects offer the values that are
  selected in \<open>p\<close>, as they do when both pages were populated from the same data.
\<close>

theorem C4_url_round_trip:
  assumes "searchInput f = []" "selectValue (yearSelect f) = []" "selectValue (topicSelect f) = []"
    and "selectValue (yearSelect p) = [] \<or> selectValue (yearSelect p) \<in> optionValues (yearSelect f)"
    and "selectValue (topicSelect p) = [] \<or> selectValue (topicSelect p) \<in> optionValues (topicSelect f)"
  shows "searchInput (restoreFilters (f\<lparr>locationSearch := locationSearch (updateURL p)\<rparr>)) = searchInput p
       \<and> selectValue (yearSelect (restoreFilters (f\<lparr>locationSearch := locationSearch (updateURL p)\<rparr>)))
           = selectValue (yearSelect p)
       \<and> selectValue (topicSelect (restoreFilters (f\<lparr>locationSearch := locationSearch (updateURL p)\<rparr>)))
           = selectValue (topicSelect p)
       \<and> list_all (\<lambda>kv. snd kv \<noteq> []) (locationSearch (updateURL p))
       \<and> (paramsGet (locationSearch (updateURL p)) ''search'' = None \<longleftrightarrow> searchInput p = [])
       \<and> (paramsGet (locationSearch (updateURL p)) ''year'' = None
            \<longleftrightarrow> selectValue (yearSelect p) = [])
       \<and> (paramsGet (locationSearch (updateURL p)) ''topic'' = None
            \<longleftrightarrow> selectValue (topicSelect p) = [])
       \<and> set (map fst (locationSearch (updateURL p))) \<subseteq> {''search'', ''year'', ''topic''}"
proof -
  let ?q = "locationSearch (updateURL p)"
  let ?r = "restoreFilters (f\<lparr>locationSearch := ?q\<rparr>)"
  have q: "?q = filterParams (searchInput p) (selectValue (yearSelect p)) (selectValue (topicSelect p))"
    by (simp add: locationSearch_updateURL currentParams_def)
  have 1: "searchInput ?r = searchInput p"
    using assms(1) by (simp add: restoreFilters_fields q paramsGet_filterParams)
  have 2: "selectValue (yearSelect ?r) = selectValue (yearSelect p)"
    using assms(2,4) by (auto simp: restoreFilters_fields q paramsGet_filterParams setSelectValue_def)
  have 3: "selectValue (topicSelect ?r) = selectValue (topicSelect p)"
    using assms(3,5) by (auto simp: restoreFilters_fields q paramsGet_filterParams setSelectValue_def)
  have 4: "list_all (\<lambda>kv. snd kv \<noteq> []) ?q"
    unfolding q by (rule filterParams_values)
  have 5: "set (map fst ?q) \<subseteq> {''search'', ''year'', ''topic''}"
    unfolding q by (rule filterParams_values)
  have 6: "paramsGet ?q ''search'' = None \<longleftrightarrow> searchInput p = []"
    "paramsGet ?q ''year'' = None \<longleftrightarrow> selectValue (yearSelect p) = []"
    "paramsGet ?q ''topic'' = None \<longleftrightarrow> selectValue (topicSelect p) = []"
    unfolding q by (simp_all add: paramsGet_filterParams)
  from 1 2 3 4 5 6 show ?thesis by blast
qed

theorem C4_url_round_trip_witness:
  "searchInput scenarioPage = [] \<and> selectValue (yearSelect scenarioPage) = []
   \<and> selectValue (topicSelect scenarioPage) = []
   \<and> (selectValue (yearSelect scenarioPage2022) = []
        \<or> selectValue (yearSelect scenarioPage2022) \<in> optionValues (yearSelect scenarioPage))
   \<and> (selectValue (topicSelect scenarioPage2022) = []
        \<or> selectValue (topicSelect scenarioPage2022) \<in> optionValues (topicSelect scenarioPage))
   \<and> locationSearch (updateURL scenarioPage2022) = [(''year'', ''2022'')]
   \<and> searchInput (restoreFilters (scenarioPage\<lparr>locationSearch := [(''year'', ''2022'')]\<rparr>)) = []
   \<and> selectValue (yearSelect (restoreFilters (scenarioPage\<lparr>locationSearch := [(''year'', ''2022'')]\<rparr>)))
       = ''2022''
   \<and> selectValue (topicSelect (restoreFilters (scenarioPage\<lparr>locationSearch := [(''year'', ''2022'')]\<rparr>)))
       = []
   \<and> list_all (\<lambda>kv. snd kv \<noteq> []) [(''year'', ''2022'')]
   \<and> paramsGet [(''year'', ''2022'')] ''search'' = None
   \<and> paramsGet [(''year'', ''2022'')] ''year'' \<noteq> None
   \<and> paramsGet [(''year'', ''2022'')] ''topic'' = None"
proof -
  have f: "searchInput scenarioPage = []" "selectValue (yearSelect scenarioPage) = []"
    "selectValue (topicSelect scenarioPage) = []"
    by (simp_all add: scenarioPage_fields)
  have y: "selectValue (yearSelect scenarioPage2022) = []
        \<or> selectValue (yearSelect scenarioPage2022) \<in> optionValues (yearSelect scenarioPage)"
    by (simp add: scenarioPage2022_fields scenarioPage_def)
  have t: "selectValue (topicSelect scenarioPage2022) = []
        \<or> selectValue (topicSelect scenarioPage2022) \<in> optionValues (topicSelect scenarioPage)"
    by (simp add: scenarioPage2022_fields)
  have q: "locationSearch (updateURL scenarioPage2022) = [(''year'', ''2022'')]"
    by (simp add: locationSearch_updateURL currentParams_def scenarioPage2022_fields filterParams_def)
  from C4_url_round_trip [OF f y t] f y t q show ?thesis
    by (simp add: scenarioPage2022_fields)
qed

text \<open>
  Claim C5. For every collection and every filter state the filter engine is total:
  it never throws and always returns a result, the empty one when nothing matches.
  \<open>filterTutorials\<close> calls \<open>tutorial.authors.some\<close>, \<open>tutorial.keywords.some\<close> and
  \<open>tutorial.keywords.includes\<close> without the test for an absent field that
  \<open>renderAuthors\<close>, \<open>renderKeywords\<close> and \<open>populateFilters\<close> make. On a tutorial without
  keywords, a search text that matches neither its title nor an author reaches
  \<open>tutorial.keywords.some\<close>, which throws. When every tutorial carries both lists
  the engine returns a result, and on the empty collection it returns the empty one.
\<close>

theorem C5_absent_keywords_throws:
  "applyFilters rnd n
     [\<lparr>title = ''Intro'', authors = Some [''Ann''], year = 2023, status = None,
       keywords_t = None\<rparr>] ''z'' [] [] = Inl TypeError
   \<and> (list_all hasLists all \<longrightarrow>
        (\<exists>result n'. applyFilters rnd n all searchValue yearValue topicValue = Inr (result, n')))
   \<and> applyFilters rnd n [] searchValue yearValue topicValue = Inr ([], n)"
proof -
  have 1: "applyFilters rnd n
     [\<lparr>title = ''Intro'', authors = Some [''Ann''], year = 2023, status = None,
       keywords_t = None\<rparr>] ''z'' [] [] = Inl TypeError"
    by (simp add: applyFilters_def matchedTutorials_def matchesAll_def matchesSearch_def
        toLowerCase_def toLowerCase_char_def trim_def isWhiteSpace_def includesStr_def
        sublist_code(3))
  have 2: "\<exists>result n'. applyFilters rnd n all searchValue yearValue topicValue = Inr (result, n')"
    if "list_all hasLists all"
  proof -
    from matchedTutorials_total [OF that] obtain m where
      "matchedTutorials all searchValue yearValue topicValue = Inr m" by blast
    then show ?thesis by (simp add: applyFilters_def prod_eq_iff)
  qed
  from 1 2 applyFilters_Nil show ?thesis by blast
qed

theorem C5_absent_keywords_throws_witness:
  "applyFilters (\<lambda>n. 0) 0
     [\<lparr>title = ''Intro'', authors = Some [''Ann''], year = 2023, status = None,
       keywords_t = None\<rparr>] ''z'' [] [] = Inl TypeError
   \<and> list_all hasLists scenario
   \<and> (\<exists>result n'. applyFilters (\<lambda>n. 0) 0 scenario ''z'' [] [] = Inr (result, n'))
   \<and> applyFilters (\<lambda>n. 0) 0 [] ''z'' [] [] = Inr ([], 0)"
proof -
  have w: "list_all hasLists scenario"
    by code_simp
  from C5_absent_keywords_throws [of "\<lambda>n. 0" 0 scenario "''z''" "[]" "[]"] w
  show ?thesis by blast
qed

text \<open>
  Claim C6. A year parameter that does not parse to an integer or matches no
  tutorial's year is kept as provided and the engine then matches nothing; missing
  keys give unset fields and unknown keys are ignored.

  The year control is a select: a value that is not the value of one of its options
  (after \<open>populateFilters\<close>: the empty value and \<open>String(year)\<close> of the loaded
  tutorials) selects nothing, the control reads as empty, and the year filter is unset
  rather than unmatched. As amended: after \<open>initializeFromURL\<close> has set the controls,
  the search box holds the \<open>search\<close> parameter, each select holds its parameter when
  that is one of its option values and reads as empty when it is not, a missing key
  leaves its control as it was, a year parameter that is not an option value makes the
  engine match what search and topic alone select, and other keys change nothing. A
  value that is not empty and denotes the year of no loaded tutorial is not an option
  value.
\<close>

theorem C6_unlisted_year_reads_empty:
  "searchInput (restoreFilters p) =
     (case paramsGet (locationSearch p) ''search'' of None \<Rightarrow> searchInput p | Some v \<Rightarrow> v)
   \<and> selectValue (yearSelect (restoreFilters p)) =
       (case paramsGet (locationSearch p) ''year'' of
          None \<Rightarrow> selectValue (yearSelect p)
        | Some v \<Rightarrow> if v \<in> optionValues (yearSelect p) then v else [])
   \<and> selectValue (topicSelect (restoreFilters p)) =
       (case paramsGet (locationSearch p) ''topic'' of
          None \<Rightarrow> selectValue (topicSelect p)
        | Some v \<Rightarrow> if v \<in> optionValues (topicSelect p) then v else [])
   \<and> optionValues (yearSelect (populateFilters p))
       = insert [] ((\<lambda>t. string_of_int (year t)) ` set (allTutorials p))
   \<and> (u \<noteq> [] \<and> list_all (\<lambda>t. toNumber u \<noteq> Some (year t)) (allTutorials p) \<longrightarrow>
        u \<notin> optionValues (yearSelect (populateFilters p)))
   \<and> (paramsGet (locationSearch p) ''year'' = Some v \<and> v \<notin> optionValues (yearSelect p) \<longrightarrow>
        matchedTutorials (allTutorials p) (searchInput (restoreFilters p))
            (selectValue (yearSelect (restoreFilters p))) (selectValue (topicSelect (restoreFilters p)))
          = matchedTutorials (allTutorials p) (searchInput (restoreFilters p)) []
              (selectValue (topicSelect (restoreFilters p))))
   \<and> (k \<notin> {''search'', ''year'', ''topic''} \<longrightarrow>
        restoreFilters (p\<lparr>locationSearch := (k, x) # locationSearch p\<rparr>)
          = (restoreFilters p)\<lparr>locationSearch := (k, x) # locationSearch p\<rparr>)"
proof -
  have 1: "searchInput (restoreFilters p) =
     (case paramsGet (locationSearch p) ''search'' of None \<Rightarrow> searchInput p | Some v \<Rightarrow> v)"
    by (simp add: restoreFilters_fields split: option.splits)
  have 2: "selectValue (yearSelect (restoreFilters p)) =
       (case paramsGet (locationSearch p) ''year'' of
          None \<Rightarrow> selectValue (yearSelect p)
        | Some v \<Rightarrow> if v \<in> optionValues (yearSelect p) then v else [])"
    by (simp add: restoreFilters_fields setSelectValue_def split: option.splits)
  have 3: "selectValue (topicSelect (restoreFilters p)) =
       (case paramsGet (locationSearch p) ''topic'' of
          None \<Rightarrow> selectValue (topicSelect p)
        | Some v \<Rightarrow> if v \<in> optionValues (topicSelect p) then v else [])"
    by (simp add: restoreFilters_fields setSelectValue_def split: option.splits)
  have 4: "optionValues (yearSelect (populateFilters p))
       = insert [] ((\<lambda>t. string_of_int (year t)) ` set (allTutorials p))"
    by (simp add: populateFilters_def)
  have 5: "selectValue (yearSelect (restoreFilters p)) = []"
    if "paramsGet (locationSearch p) ''year'' = Some v" "v \<notin> optionValues (yearSelect p)"
    using that by (simp add: 2)
  have 6: "restoreFilters (p\<lparr>locationSearch := (k, x) # locationSearch p\<rparr>)
          = (restoreFilters p)\<lparr>locationSearch := (k, x) # locationSearch p\<rparr>"
    if "k \<notin> {''search'', ''year'', ''topic''}"
  proof -
    from that have "''search'' \<noteq> k" "''year'' \<noteq> k" "''topic'' \<noteq> k" by auto
    then show ?thesis
      by (simp add: restoreFilters_def paramsGet_def Let_def split: option.splits)
  qed
  have 7: "u \<notin> optionValues (yearSelect (populateFilters p))"
    if "u \<noteq> []" "list_all (\<lambda>t. toNumber u \<noteq> Some (year t)) (allTutorials p)"
    using that by (auto simp: 4 list_all_iff toNumber_string_of_int)
  show ?thesis
    using 1 2 3 4 5 6 7 by presburger
qed

theorem C6_unlisted_year_reads_empty_witness:
  "paramsGet (locationSearch abcPage) ''year'' = Some ''abc''
   \<and> ''abc'' \<notin> optionValues (yearSelect abcPage)
   \<and> ''utm'' \<notin> {''search'', ''year'', ''topic''}
   \<and> ''2030'' \<noteq> [] \<and> list_all (\<lambda>t. toNumber ''2030'' \<noteq> Some (year t)) (allTutorials abcPage)
   \<and> ''2030'' \<notin> optionValues (yearSelect (populateFilters abcPage))
   \<and> searchInput (restoreFilters abcPage) = []
   \<and> selectValue (yearSelect (restoreFilters abcPage)) = []
   \<and> selectValue (topicSelect (restoreFilters abcPage)) = []
   \<and> optionValues (yearSelect (populateFilters abcPage)) = {[], ''2023'', ''2022''}
   \<and> matchedTutorials scenario [] (selectValue (yearSelect (restoreFilters abcPage))) []
       = matchedTutorials scenario [] [] []
   \<and> restoreFilters (abcPage\<lparr>locationSearch := (''utm'', ''1'') # locationSearch abcPage\<rparr>)
       = (restoreFilters abcPage)\<lparr>locationSearch := (''utm'', ''1'') # locationSearch abcPage\<rparr>"
proof -
  have h: "paramsGet (locationSearch abcPage) ''year'' = Some ''abc''"
    "''abc'' \<notin> optionValues (yearSelect abcPage)"
    "''utm'' \<notin> {''search'', ''year'', ''topic''}"
    by (simp_all add: abcPage_fields paramsGet_def)
  have o: "insert [] ((\<lambda>t. string_of_int (year t)) ` set scenario) = {[], ''2023'', ''2022''}"
    by (auto simp: scenario_def deepLearningBasics_def graphs101_def compilers_def
        string_of_int_scenario)
  have n: "''2030'' \<noteq> []"
    "list_all (\<lambda>t. toNumber ''2030'' \<noteq> Some (year t)) (allTutorials abcPage)"
    by (simp_all add: abcPage_fields scenario_def deepLearningBasics_def graphs101_def
        compilers_def toNumber_def trim_def isWhiteSpace_def unsigned_of_string_def digit_val_def)
  from C6_unlisted_year_reads_empty [where p = abcPage and v = "''abc''" and k = "''utm''"
      and x = "''1''" and u = "''2030''"] h n
  show ?thesis
    by (simp add: abcPage_fields paramsGet_def o)
qed

theorem C6_counterexample:
  "filteredTutorials (loadSucceeded (\<lambda>n. 0) scenario (init [(''year'', ''abc'')])) = scenario
   \<and> filteredTutorials (loadSucceeded (\<lambda>n. 0) scenario (init [(''year'', ''abc'')])) \<noteq> []
   \<and> selectValue (yearSelect (loadSucceeded (\<lambda>n. 0) scenario (init [(''year'', ''abc'')]))) = []
   \<and> selectValue (yearSelect (loadSucceeded (\<lambda>n. 0) scenario (init [(''year'', ''abc'')])))
       \<noteq> ''abc''"
proof -
  have a: "applyFilters (\<lambda>n. 0) 0 scenario [] [] [] = Inr (scenario, 0)"
    by (rule applyFilters_examples)
  have r: "searchInput (restoreFilters abcPage) = []"
    "selectValue (yearSelect (restoreFilters abcPage)) = []"
    "selectValue (topicSelect (restoreFilters abcPage)) = []"
    "allTutorials (restoreFilters abcPage) = scenario"
    "randomCalls (restoreFilters abcPage) = 0"
    by (simp_all add: restoreFilters_def Let_def paramsGet_def abcPage_fields setSelectValue_def)
  have "loadSucceeded (\<lambda>n. 0) scenario (init [(''year'', ''abc'')])
      = afterRun scenario 0 (restoreFilters abcPage)"
    by (simp add: loadSucceeded_def abcPage_def [symmetric] initializeFromURL_def
        filterTutorials_eq r a)
  then have "filteredTutorials (loadSucceeded (\<lambda>n. 0) scenario (init [(''year'', ''abc'')])) = scenario"
    "selectValue (yearSelect (loadSucceeded (\<lambda>n. 0) scenario (init [(''year'', ''abc'')]))) = []"
    by (simp_all add: afterRun_def r)
  then show ?thesis by (simp add: scenario_def)
qed

text \<open>
  Claim C7. For a burst of search inputs the engine run is scheduled 300 ms after the
  last input; each input that arrives before the pending run is due cancels and
  reschedules it, so the burst leads to one run, with the final text. For inputs at 0,
  100 and 150 ms with \<open>a\<close>, \<open>ab\<close>, \<open>abc\<close>: one run, with \<open>abc\<close>, not before 450 ms (the
  witness).

  The burst is \<open>(t, v) # es\<close>; it starts on a page whose clock has not passed \<open>t\<close> and
  whose pending timer, if any, is not yet due. During the burst nothing is logged and
  the timer ends up due 300 ms after the last input; up to then nothing runs; once the
  clock reaches that time the page is the one a single call of \<open>filterTutorials\<close>
  leaves, made at that time with the last text in the search box.
\<close>

theorem C7_debounce_one_run:
  assumes "clock p \<le> t" "notDueBy t p" "withinQuietPeriod t es"
  shows "effects (run rnd (searchInputs ((t, v) # es)) p) = effects p
       \<and> searchDebounce (run rnd (searchInputs ((t, v) # es)) p)
           = Some (fst (last ((t, v) # es)) + 300)
       \<and> (T1 < fst (last ((t, v) # es)) + 300 \<longrightarrow>
            effects (advance rnd T1 (run rnd (searchInputs ((t, v) # es)) p)) = effects p)
       \<and> (fst (last ((t, v) # es)) + 300 \<le> T2 \<longrightarrow>
            advance rnd T2 (run rnd (searchInputs ((t, v) # es)) p)
              = (callFilterTutorials rnd
                   (p\<lparr>searchInput := snd (last ((t, v) # es)),
                      clock := fst (last ((t, v) # es)) + 300,
                      searchDebounce := None\<rparr>))\<lparr>clock := T2\<rparr>
            \<and> length (engineRuns (advance rnd T2 (run rnd (searchInputs ((t, v) # es)) p)))
                = length (engineRuns p) + 1)"
proof -
  let ?L = "fst (last ((t, v) # es))"
  let ?V = "snd (last ((t, v) # es))"
  let ?r = "run rnd (searchInputs ((t, v) # es)) p"
  let ?q = "p\<lparr>searchInput := ?V, clock := ?L + 300, searchDebounce := None\<rparr>"
  have r: "?r = p\<lparr>clock := ?L, searchInput := ?V, searchDebounce := Some (?L + 300)\<rparr>"
    using assms by (rule run_burst)
  have 1: "effects ?r = effects p" by (simp add: r)
  have 2: "searchDebounce ?r = Some (?L + 300)" by (simp add: r)
  have 3: "effects (advance rnd T1 ?r) = effects p" if "T1 < ?L + 300"
    using that by (simp add: r advance_def del: last.simps)
  have 4: "advance rnd T2 ?r = (callFilterTutorials rnd ?q)\<lparr>clock := T2\<rparr>" if "?L + 300 \<le> T2"
    using that by (simp add: r advance_def max_def del: last.simps)
  have "engineRuns ((callFilterTutorials rnd ?q)\<lparr>clock := T2\<rparr>) = engineRuns (callFilterTutorials rnd ?q)"
    by (simp add: engineRuns_def)
  moreover have "engineRuns ?q = engineRuns p" by (simp add: engineRuns_def)
  ultimately have 5: "length (engineRuns ((callFilterTutorials rnd ?q)\<lparr>clock := T2\<rparr>))
      = length (engineRuns p) + 1"
    using engineRuns_callFilterTutorials [of rnd ?q] by (metis length_append_singleton Suc_eq_plus1)
  show ?thesis
    using 1 2 3 4 5 by (simp del: last.simps)
qed

theorem C7_debounce_one_run_witness:
  "clock (init []) \<le> 0 \<and> notDueBy 0 (init [])
   \<and> withinQuietPeriod 0 [(100, ''ab''), (150, ''abc'')]
   \<and> (449::nat) < 150 + 300 \<and> (150::nat) + 300 \<le> 450
   \<and> effects (run (\<lambda>n. 0) (searchInputs [(0, ''a''), (100, ''ab''), (150, ''abc'')]) (init []))
       = [(0, Render Loading)]
   \<and> searchDebounce (run (\<lambda>n. 0) (searchInputs [(0, ''a''), (100, ''ab''), (150, ''abc'')]) (init []))
       = Some 450
   \<and> effects (advance (\<lambda>n. 0) 449
         (run (\<lambda>n. 0) (searchInputs [(0, ''a''), (100, ''ab''), (150, ''abc'')]) (init [])))
       = [(0, Render Loading)]
   \<and> effects (advance (\<lambda>n. 0) 450
         (run (\<lambda>n. 0) (searchInputs [(0, ''a''), (100, ''ab''), (150, ''abc'')]) (init [])))
       = [(0, Render Loading),
          (450, Recompute ''abc'' [] [] []),
          (450, Render EmptyState),
          (450, ResultsCount ''Showing all 0 tutorials''),
          (450, ReplaceState [(''search'', ''abc'')]),
          (450, ClearButton True)]
   \<and> length (engineRuns (advance (\<lambda>n. 0) 450
         (run (\<lambda>n. 0) (searchInputs [(0, ''a''), (100, ''ab''), (150, ''abc'')]) (init []))))
       = length (engineRuns (init [])) + 1"
proof -
  have h: "clock (init []) \<le> 0" "notDueBy 0 (init [])"
    "withinQuietPeriod 0 [(100, ''ab''), (150, ''abc'')]"
    by (simp_all add: init_def showLoading_def logEffect_def notDueBy_def)
  have i: "effects (init []) = [(0, Render Loading)]"
    by (simp add: init_def showLoading_def logEffect_def)
  have a: "applyFilters (\<lambda>n. 0) 0 [] ''abc'' [] [] = Inr ([], 0)"
    by (rule applyFilters_Nil)
  have f: "allTutorials (init []) = []" "selectValue (yearSelect (init [])) = []"
    "selectValue (topicSelect (init [])) = []" "randomCalls (init []) = 0"
    by (simp_all add: init_def showLoading_def logEffect_def)
  have c: "effects (callFilterTutorials (\<lambda>n. 0)
        ((init [])\<lparr>searchInput := ''abc'', clock := 450, searchDebounce := None\<rparr>))
      = [(0, Render Loading),
          (450, Recompute ''abc'' [] [] []),
          (450, Render EmptyState),
          (450, ResultsCount ''Showing all 0 tutorials''),
          (450, ReplaceState [(''search'', ''abc'')]),
          (450, ClearButton True)]"
    by (simp add: callFilterTutorials_def filterTutorials_eq f a afterRun_def i rendered_def
        countText_def string_of_nat.simps digit_char_def currentParams_def filterParams_def
        anyFilter_def)
  have l: "fst (last [(0::nat, ''a''), (100, ''ab''), (150, ''abc'')]) = 150"
    "snd (last [(0::nat, ''a''), (100, ''ab''), (150, ''abc'')]) = ''abc''"
    by simp_all
  have n: "(449::nat) < 150 + 300" "(150::nat) + 300 \<le> 450" by simp_all
  note w = C7_debounce_one_run [OF h, of "\<lambda>n. 0" "''a''" 449 450, unfolded l]
  from w have 1: "effects (run (\<lambda>n. 0) (searchInputs [(0, ''a''), (100, ''ab''), (150, ''abc'')]) (init []))
       = effects (init [])" by blast
  from w have 2: "searchDebounce (run (\<lambda>n. 0) (searchInputs [(0, ''a''), (100, ''ab''), (150, ''abc'')]) (init []))
       = Some (150 + 300)" by blast
  from w n have 3: "effects (advance (\<lambda>n. 0) 449
         (run (\<lambda>n. 0) (searchInputs [(0, ''a''), (100, ''ab''), (150, ''abc'')]) (init [])))
       = effects (init [])" by blast
  from w n have 4: "advance (\<lambda>n. 0) 450
         (run (\<lambda>n. 0) (searchInputs [(0, ''a''), (100, ''ab''), (150, ''abc'')]) (init []))
       = (callFilterTutorials (\<lambda>n. 0)
            ((init [])\<lparr>searchInput := ''abc'', clock := 150 + 300, searchDebounce := None\<rparr>))\<lparr>clock := 450\<rparr>"
    by blast
  from w n have 5: "length (engineRuns (advance (\<lambda>n. 0) 450
         (run (\<lambda>n. 0) (searchInputs [(0, ''a''), (100, ''ab''), (150, ''abc'')]) (init []))))
       = length (engineRuns (init [])) + 1" by blast
  have 6: "effects (advance (\<lambda>n. 0) 450
         (run (\<lambda>n. 0) (searchInputs [(0, ''a''), (100, ''ab''), (150, ''abc'')]) (init [])))
       = [(0, Render Loading),
          (450, Recompute ''abc'' [] [] []),
          (450, Render EmptyState),
          (450, ResultsCount ''Showing all 0 tutorials''),
          (450, ReplaceState [(''search'', ''abc'')]),
          (450, ClearButton True)]"
    unfolding 4 using c by simp
  from h n 1 2 3 5 6 show ?thesis by (simp add: i)
qed

text \<open>
  Claim C8. A run that completes performs its side effects together and in this
  order: recompute, render (or empty state), result count (\<open>Showing N of T tutorials\<close>
  when N differs from T, else \<open>Showing all T tutorials\<close>), clear-button visibility
  (visible iff a field is active), URL.

  \<open>filterTutorials\<close> calls \<open>updateURL\<close> before \<open>updateClearButton\<close>. As amended: the
  order is recompute, render, result count, URL, clear button; the texts and the
  visibility are as claimed, a field being active when its control value is not empty.
\<close>

theorem C8_effects_in_order:
  assumes "filterTutorials rnd p = Inr p'"
  shows "effects p' = effects p @ map (Pair (clock p))
           [Recompute (searchInput p) (selectValue (yearSelect p)) (selectValue (topicSelect p))
              (filteredTutorials p'),
            Render (rendered (filteredTutorials p')),
            ResultsCount (countText (length (filteredTutorials p')) (length (allTutorials p))),
            ReplaceState (currentParams p),
            ClearButton (anyFilter p)]
       \<and> libraryContainer p' = rendered (filteredTutorials p')
       \<and> resultsCount p' = countText (length (filteredTutorials p')) (length (allTutorials p))
       \<and> locationSearch p' = currentParams p
       \<and> clearButton p' = anyFilter p"
proof -
  define filtered where "filtered = filteredTutorials p'"
  from filterTutorials_Inr [OF assms] obtain n' where
    "p' = afterRun filtered n' p" unfolding filtered_def by blast
  then have "effects p' = effects (afterRun filtered n' p)"
    "libraryContainer p' = libraryContainer (afterRun filtered n' p)"
    "resultsCount p' = resultsCount (afterRun filtered n' p)"
    "locationSearch p' = locationSearch (afterRun filtered n' p)"
    "clearButton p' = clearButton (afterRun filtered n' p)"
    by simp_all
  then show ?thesis
    unfolding filtered_def [symmetric] by (simp add: afterRun_def)
qed

theorem C8_effects_in_order_witness:
  "filterTutorials (\<lambda>n. 0) scenarioPage2022 = Inr (afterRun [compilers] 0 scenarioPage2022)
   \<and> effects (afterRun [compilers] 0 scenarioPage2022) =
       [(0, Recompute [] ''2022'' [] [compilers]),
        (0, Render (YearSections [(''2022'', [compilers])])),
        (0, ResultsCount ''Showing 1 of 3 tutorials''),
        (0, ReplaceState [(''year'', ''2022'')]),
        (0, ClearButton True)]
   \<and> libraryContainer (afterRun [compilers] 0 scenarioPage2022) = YearSections [(''2022'', [compilers])]
   \<and> resultsCount (afterRun [compilers] 0 scenarioPage2022) = ''Showing 1 of 3 tutorials''
   \<and> locationSearch (afterRun [compilers] 0 scenarioPage2022) = [(''year'', ''2022'')]
   \<and> clearButton (afterRun [compilers] 0 scenarioPage2022)"
proof -
  have a: "applyFilters (\<lambda>n. 0) 0 scenario [] ''2022'' [] = Inr ([compilers], 0)"
    by (rule applyFilters_examples)
  have h: "filterTutorials (\<lambda>n. 0) scenarioPage2022 = Inr (afterRun [compilers] 0 scenarioPage2022)"
    by (simp add: filterTutorials_eq scenarioPage2022_fields a)
  have v: "filteredTutorials (afterRun [compilers] 0 scenarioPage2022) = [compilers]"
    "rendered [compilers] = YearSections [(''2022'', [compilers])]"
    "countText (length [compilers]) (length (allTutorials scenarioPage2022)) = ''Showing 1 of 3 tutorials''"
    "currentParams scenarioPage2022 = [(''year'', ''2022'')]"
    "anyFilter scenarioPage2022"
        apply (simp add: afterRun_def)
       apply (simp add: rendered_def yearSections_compilers)
      apply (simp add: scenarioPage2022_fields scenario_def countText_def string_of_nat.simps digit_char_def)
     apply (simp add: currentParams_def scenarioPage2022_fields filterParams_def)
    apply (simp add: anyFilter_def scenarioPage2022_fields)
    done
  from C8_effects_in_order [OF h] h v(5) show ?thesis
    unfolding v(1-4) by (simp add: scenarioPage2022_fields)
qed

theorem C8_counterexample:
  "runEffects (\<lambda>n. 0) scenarioPage = [Recomputed, Rendered, Counted, UrlSynced, ClearButtonSet]
   \<and> runEffects (\<lambda>n. 0) scenarioPage \<noteq> claimedOrder"
proof -
  have a: "applyFilters (\<lambda>n. 0) 0 scenario [] [] [] = Inr (scenario, 0)"
    by (rule applyFilters_examples)
  have "filterTutorials (\<lambda>n. 0) scenarioPage = Inr (afterRun scenario 0 scenarioPage)"
    by (simp add: filterTutorials_eq scenarioPage_fields a)
  then have "runEffects (\<lambda>n. 0) scenarioPage
      = [Recomputed, Rendered, Counted, UrlSynced, ClearButtonSet]"
    by (simp add: runEffects_def callFilterTutorials_def afterRun_def scenarioPage_fields)
  then show ?thesis by (simp add: claimedOrder_def)
qed

text \<open>
  Claim C9. An input event that arrives before the load completes has no observable
  effect: no engine run, no render, no URL change.

  \<open>init\<close> registers the listeners before it starts the load and no handler tests
  whether the load has completed. As amended: while the collection is still empty, a
  change of either select and a click on the clear button run the engine at once, and
  a search input runs it once its 300 ms have passed; each such run shows the empty
  state and the count text for 0 of 0, puts the control values in the URL and sets the
  clear button.
\<close>

theorem C9_input_before_load_runs_engine:
  assumes "allTutorials p = []"
  shows "emptyRunShown (p\<lparr>yearSelect := setSelectValue v (yearSelect p)\<rparr>)
           (handleEvent rnd (YearChange v) p)
       \<and> emptyRunShown (p\<lparr>topicSelect := setSelectValue w (topicSelect p)\<rparr>)
           (handleEvent rnd (TopicChange w) p)
       \<and> emptyRunShown
           (p\<lparr>searchInput := [], yearSelect := setSelectValue [] (yearSelect p),
              topicSelect := setSelectValue [] (topicSelect p)\<rparr>)
           (handleEvent rnd ClearClick p)
       \<and> (clock p \<le> t \<and> notDueBy t p \<and> t + 300 \<le> T \<longrightarrow>
            emptyRunShown (p\<lparr>searchInput := s, clock := t + 300, searchDebounce := None\<rparr>)
              (advance rnd T (step rnd (t, SearchInput s) p)))"
proof -
  have 1: "emptyRunShown (p\<lparr>yearSelect := setSelectValue v (yearSelect p)\<rparr>)
           (handleEvent rnd (YearChange v) p)"
    using assms by (simp add: emptyRunShown_call)
  have 2: "emptyRunShown (p\<lparr>topicSelect := setSelectValue w (topicSelect p)\<rparr>)
           (handleEvent rnd (TopicChange w) p)"
    using assms by (simp add: emptyRunShown_call)
  have 3: "emptyRunShown
           (p\<lparr>searchInput := [], yearSelect := setSelectValue [] (yearSelect p),
              topicSelect := setSelectValue [] (topicSelect p)\<rparr>)
           (handleEvent rnd ClearClick p)"
    using assms by (simp add: clearFilters_def emptyRunShown_call)
  have 4: "emptyRunShown (p\<lparr>searchInput := s, clock := t + 300, searchDebounce := None\<rparr>)
              (advance rnd T (step rnd (t, SearchInput s) p))"
    if "clock p \<le> t" "notDueBy t p" "t + 300 \<le> T"
  proof -
    have "advance rnd T (step rnd (t, SearchInput s) p)
        = (callFilterTutorials rnd
             (p\<lparr>searchInput := s, clock := t + 300, searchDebounce := None\<rparr>))\<lparr>clock := T\<rparr>"
      using that by (simp add: step_SearchInput advance_def max_def)
    then show ?thesis
      using assms by (simp add: emptyRunShown_call emptyRunShown_clock)
  qed
  from 1 2 3 4 show ?thesis by blast
qed

theorem C9_input_before_load_runs_engine_witness:
  "allTutorials (init []) = [] \<and> clock (init []) \<le> 0 \<and> notDueBy 0 (init []) \<and> (0::nat) + 300 \<le> 300
   \<and> emptyRunShown ((init [])\<lparr>yearSelect := setSelectValue [] (yearSelect (init []))\<rparr>)
        (handleEvent (\<lambda>n. 0) (YearChange []) (init []))
   \<and> emptyRunShown ((init [])\<lparr>topicSelect := setSelectValue [] (topicSelect (init []))\<rparr>)
        (handleEvent (\<lambda>n. 0) (TopicChange []) (init []))
   \<and> emptyRunShown
        ((init [])\<lparr>searchInput := [], yearSelect := setSelectValue [] (yearSelect (init [])),
           topicSelect := setSelectValue [] (topicSelect (init []))\<rparr>)
        (handleEvent (\<lambda>n. 0) ClearClick (init []))
   \<and> emptyRunShown ((init [])\<lparr>searchInput := ''a'', clock := 0 + 300, searchDebounce := None\<rparr>)
        (advance (\<lambda>n. 0) 300 (step (\<lambda>n. 0) (0, SearchInput ''a'') (init [])))"
proof -
  have h: "allTutorials (init []) = []"
    by (simp add: init_def showLoading_def logEffect_def)
  have g: "clock (init []) \<le> 0" "notDueBy 0 (init [])" "(0::nat) + 300 \<le> 300"
    by (simp_all add: init_def showLoading_def logEffect_def notDueBy_def)
  from C9_input_before_load_runs_engine [OF h, where v = "[]" and w = "[]" and rnd = "\<lambda>n. 0"
      and t = 0 and T = 300 and s = "''a''"] h g
  show ?thesis by blast
qed

theorem C9_counterexample:
  "allTutorials (advance (\<lambda>n. 0) 300 (step (\<lambda>n. 0) (0, SearchInput ''a'') (init []))) = []
   \<and> libraryContainer (init []) = Loading
   \<and> libraryContainer (advance (\<lambda>n. 0) 300 (step (\<lambda>n. 0) (0, SearchInput ''a'') (init [])))
       = EmptyState
   \<and> locationSearch (init []) = []
   \<and> locationSearch (advance (\<lambda>n. 0) 300 (step (\<lambda>n. 0) (0, SearchInput ''a'') (init [])))
       = [(''search'', ''a'')]
   \<and> map (\<lambda>e. kindOf (snd e))
        (effects (advance (\<lambda>n. 0) 300 (step (\<lambda>n. 0) (0, SearchInput ''a'') (init []))))
       = [Rendered, Recomputed, Rendered, Counted, UrlSynced, ClearButtonSet]"
proof -
  have i: "allTutorials (init []) = []" "clock (init []) = 0" "notDueBy 0 (init [])"
    "libraryContainer (init []) = Loading" "locationSearch (init []) = []"
    "effects (init []) = [(0, Render Loading)]" "selectValue (yearSelect (init [])) = []"
    "selectValue (topicSelect (init [])) = []"
    by (simp_all add: init_def showLoading_def logEffect_def notDueBy_def)
  have s: "step (\<lambda>n. 0) (0, SearchInput ''a'') (init [])
      = (init [])\<lparr>clock := 0, searchInput := ''a'', searchDebounce := Some (0 + 300)\<rparr>"
    by (rule step_SearchInput) (simp_all add: i)
  have "advance (\<lambda>n. 0) 300 (step (\<lambda>n. 0) (0, SearchInput ''a'') (init []))
      = (afterRun [] 0 ((init [])\<lparr>searchInput := ''a'', clock := 300, searchDebounce := None\<rparr>))
          \<lparr>clock := 300\<rparr>"
    unfolding s
    by (simp add: advance_def callFilterTutorials_empty i) (simp add: init_def showLoading_def logEffect_def)
  then show ?thesis
    by (simp add: afterRun_def i rendered_def currentParams_def filterParams_def)
qed



end
